theory Spec2Isabelle
  imports Complex_Main "HOL-Library.Word" "HOL-Library.Sublist" "HOL-Library.AList"
begin

section \<open>Archive language analyzer: \<open>linguist_wrapper.py\<close>\<close>

text \<open>
  A shallow embedding of \<open>LinguistWrapper\<close>. The filesystem is an explicit store that
  every effectful function takes and returns; the external programs (zip extraction, git,
  the classifier, the JSON decoder) are functions supplied by an environment record;
  every exception of the source is a value of \<open>error\<close>.
\<close>

subsection \<open>Errors\<close>

text \<open>The error numbers of the \<open>OSError\<close>s that have no exception class of their own.\<close>

datatype errno = ELOOP | ENAMETOOLONG | ENOTEMPTY

datatype error =
    FileNotFoundError string
  | IsADirectoryError
  | NotADirectoryError
  | PermissionError
  | OSError errno
  | ValueError
  | RecursionError
  | RuntimeError string
  | CalledProcessError int "string list"
  | BadZipFile
  | JSONDecodeError
  | AttributeError
  | OverflowError
  | ZeroDivisionError

subsection \<open>Paths and the filesystem\<close>

text \<open>
  A \<open>pathlib\<close> path: whether it is anchored at the root, and its components.
\<close>

datatype path = Path (absolute: bool) (parts: "string list")

definition child :: "path \<Rightarrow> string \<Rightarrow> path" where
  "child p n = Path (absolute p) (parts p @ [n])"

definition name :: "path \<Rightarrow> string" where
  "name p = (if parts p = [] then [] else last (parts p))"

definition parent :: "path \<Rightarrow> path" where
  "parent p = Path (absolute p) (butlast (parts p))"

fun join_with :: "string \<Rightarrow> string list \<Rightarrow> string" where
  "join_with sep [] = []"
| "join_with sep [x] = x"
| "join_with sep (x # y # ys) = x @ sep @ join_with sep (y # ys)"

definition str_path :: "path \<Rightarrow> string" where
  "str_path p =
     (if absolute p then ''/'' @ join_with ''/'' (parts p)
      else if parts p = [] then ''.'' else join_with ''/'' (parts p))"

text \<open>Splitting a string at \<open>/\<close>; \<open>pathlib\<close> drops empty and \<open>.\<close> components.\<close>

fun split_slash :: "string \<Rightarrow> string \<Rightarrow> string list" where
  "split_slash acc [] = [rev acc]"
| "split_slash acc (c # cs) =
     (if c = CHR ''/'' then rev acc # split_slash [] cs else split_slash (c # acc) cs)"

definition components :: "string \<Rightarrow> string list" where
  "components s = filter (\<lambda>c. c \<noteq> [] \<and> c \<noteq> ''.'') (split_slash [] s)"

text \<open>\<open>repo_dir / f\<close>: an absolute right operand replaces the left one.\<close>

definition joinpath :: "path \<Rightarrow> string \<Rightarrow> path" where
  "joinpath p f =
     (if f \<noteq> [] \<and> hd f = CHR ''/'' then Path True (components f)
      else Path (absolute p) (parts p @ components f))"

type_synonym byte = "8 word"

text \<open>
  What is stored at a path: a directory (whether this process may list and traverse it,
  and the names \<open>listdir\<close> gives), a regular file (whether this process may read it, and
  its bytes), or a symbolic link that cannot be resolved.
\<close>

datatype node = Dir bool "string list" | File bool "byte list" | SymlinkLoop

record world =
  nodes :: "path \<Rightarrow> node option"

text \<open>
  The path walk of the kernel, from the root (or the working directory) down the
  components still to go: a missing component is \<open>ENOENT\<close>, a regular file on the way
  \<open>ENOTDIR\<close>, an unresolvable link \<open>ELOOP\<close>, a directory that may not be traversed
  \<open>EACCES\<close>, a component of more than 255 bytes \<open>ENAMETOOLONG\<close>.
\<close>

fun walk :: "world \<Rightarrow> string \<Rightarrow> path \<Rightarrow> string list \<Rightarrow> error + node" where
  "walk w full cur [] =
     (case nodes w cur of
        None \<Rightarrow> Inl (FileNotFoundError full)
      | Some SymlinkLoop \<Rightarrow> Inl (OSError ELOOP)
      | Some n \<Rightarrow> Inr n)"
| "walk w full cur (c # cs) =
     (case nodes w cur of
        None \<Rightarrow> Inl (FileNotFoundError full)
      | Some (File readable content) \<Rightarrow> Inl NotADirectoryError
      | Some SymlinkLoop \<Rightarrow> Inl (OSError ELOOP)
      | Some (Dir accessible ns) \<Rightarrow>
          if \<not> accessible then Inl PermissionError
          else if 255 < length c then Inl (OSError ENAMETOOLONG)
          else walk w full (child cur c) cs)"

text \<open>
  What a system call finds at a path. Python refuses a path with a NUL byte
  (\<open>ValueError\<close>) and the kernel one of more than 4095 bytes, before any walk.
\<close>

definition resolve :: "world \<Rightarrow> path \<Rightarrow> error + node" where
  "resolve w p =
     (if CHR 0x00 \<in> set (concat (parts p)) then Inl ValueError
      else if 4095 < length (str_path p) then Inl (OSError ENAMETOOLONG)
      else walk w (str_path p) (Path (absolute p) []) (parts p))"

definition path_exists :: "world \<Rightarrow> path \<Rightarrow> bool" where
  "path_exists w p = (case resolve w p of Inr n \<Rightarrow> True | Inl e \<Rightarrow> False)"

text \<open>
  \<open>Path.is_dir\<close> and \<open>Path.is_file\<close> answer \<open>False\<close> when \<open>stat\<close> fails with \<open>ENOENT\<close>,
  \<open>ENOTDIR\<close> or \<open>ELOOP\<close> or the path is refused with \<open>ValueError\<close>; every other
  \<open>OSError\<close> of \<open>stat\<close> is raised.
\<close>

definition ignore_error :: "error \<Rightarrow> bool" where
  "ignore_error e =
     (case e of
        FileNotFoundError m \<Rightarrow> True
      | NotADirectoryError \<Rightarrow> True
      | OSError ELOOP \<Rightarrow> True
      | ValueError \<Rightarrow> True
      | _ \<Rightarrow> False)"

definition is_dir :: "world \<Rightarrow> path \<Rightarrow> error + bool" where
  "is_dir w p =
     (case resolve w p of
        Inr (Dir accessible ns) \<Rightarrow> Inr True
      | Inr _ \<Rightarrow> Inr False
      | Inl e \<Rightarrow> if ignore_error e then Inr False else Inl e)"

definition is_file :: "world \<Rightarrow> path \<Rightarrow> error + bool" where
  "is_file w p =
     (case resolve w p of
        Inr (File readable content) \<Rightarrow> Inr True
      | Inr _ \<Rightarrow> Inr False
      | Inl e \<Rightarrow> if ignore_error e then Inr False else Inl e)"

definition iterdir :: "world \<Rightarrow> path \<Rightarrow> error + path list" where
  "iterdir w p =
     (case resolve w p of
        Inl e \<Rightarrow> Inl e
      | Inr (Dir accessible ns) \<Rightarrow>
          if accessible then Inr (map (child p) ns) else Inl PermissionError
      | Inr _ \<Rightarrow> Inl NotADirectoryError)"

definition open_rb :: "world \<Rightarrow> path \<Rightarrow> error + byte list" where
  "open_rb w p =
     (case resolve w p of
        Inl e \<Rightarrow> Inl e
      | Inr (Dir accessible ns) \<Rightarrow> Inl IsADirectoryError
      | Inr (File readable content) \<Rightarrow> if readable then Inr content else Inl PermissionError
      | Inr SymlinkLoop \<Rightarrow> Inl (OSError ELOOP))"

subsection \<open>\<open>_detect_project_root\<close>\<close>

text \<open>A list comprehension whose condition may raise.\<close>

fun filter_err :: "('a \<Rightarrow> error + bool) \<Rightarrow> 'a list \<Rightarrow> error + 'a list" where
  "filter_err P [] = Inr []"
| "filter_err P (x # xs) =
     (case P x of
        Inl e \<Rightarrow> Inl e
      | Inr b \<Rightarrow>
          (case filter_err P xs of
             Inl e \<Rightarrow> Inl e
           | Inr ys \<Rightarrow> Inr (if b then x # ys else ys)))"

definition detect_project_root :: "world \<Rightarrow> path \<Rightarrow> error + path" where
  "detect_project_root w extract_dir =
     (case iterdir w extract_dir of
        Inl e \<Rightarrow> Inl e
      | Inr ps \<Rightarrow>
          (let entries = filter (\<lambda>p. name p \<noteq> ''__MACOSX'') ps
           in case filter_err (is_dir w) entries of
                Inl e \<Rightarrow> Inl e
              | Inr subdirs \<Rightarrow>
                  (case filter_err (is_file w) entries of
                     Inl e \<Rightarrow> Inl e
                   | Inr files \<Rightarrow>
                       Inr (if length subdirs = 1 \<and> files = [] then subdirs ! 0
                            else extract_dir))))"

subsection \<open>\<open>_count_lines\<close>\<close>

text \<open>
  \<open>iter(lambda: f.read(n), b"")\<close>: the chunks of at most \<open>n\<close> bytes read one after the
  other, up to the first empty one.
\<close>

function read_chunks :: "nat \<Rightarrow> byte list \<Rightarrow> byte list list" where
  "read_chunks n content =
     (let chunk = take n content
      in if chunk = [] then [] else chunk # read_chunks n (drop n content))"
  by pat_completeness auto
termination
  by (relation "measure (\<lambda>(n, content). length content)") auto

declare read_chunks.simps [simp del]

definition count_byte :: "byte \<Rightarrow> byte list \<Rightarrow> int" where
  "count_byte b chunk = int (length (filter (\<lambda>x. x = b) chunk))"

definition chunk_size :: nat where
  "chunk_size = push_bit 20 1"

definition count_lines :: "world \<Rightarrow> path \<Rightarrow> error + int" where
  "count_lines w file_path =
     (case open_rb w file_path of
        Inr content \<Rightarrow> Inr (sum_list (map (count_byte 10) (read_chunks chunk_size content)))
      | Inl IsADirectoryError \<Rightarrow> Inr 0
      | Inl (FileNotFoundError _) \<Rightarrow> Inr 0
      | Inl PermissionError \<Rightarrow> Inr 0
      | Inl e \<Rightarrow> Inl e)"

subsection \<open>Python floats\<close>

text \<open>
  A Python \<open>float\<close> is an IEEE 754 binary64 number. Its finite values are modelled as the
  rationals they denote, with the rounding of every operation written out: round to
  nearest, ties to even, on a 53-bit significand, gradual underflow below \<open>2 ^ -1022\<close> and
  overflow to infinity from \<open>2 ^ 1024\<close>. The two zeros are not distinguished (they compare
  equal in Python).
\<close>

datatype pyfloat = Finite rat | Inf bool | NaN

definition pow2 :: "int \<Rightarrow> rat" where
  "pow2 e = (if 0 \<le> e then 2 ^ nat e else 1 / 2 ^ nat (- e))"

text \<open>The number of binary digits of a positive integer.\<close>

function bit_length :: "int \<Rightarrow> nat" where
  "bit_length n = (if n \<le> 0 then 0 else Suc (bit_length (n div 2)))"
  by pat_completeness auto
termination
  by (relation "measure nat") auto

declare bit_length.simps [simp del]

text \<open>For \<open>x > 0\<close>, the exponent \<open>e\<close> with \<open>pow2 e \<le> x < pow2 (e + 1)\<close>.\<close>

definition ilog2 :: "rat \<Rightarrow> int" where
  "ilog2 x =
     (case quotient_of x of (p, q) \<Rightarrow>
        (let d = int (bit_length p) - int (bit_length q)
         in if pow2 d \<le> x then d else d - 1))"

definition round_half_even :: "rat \<Rightarrow> int" where
  "round_half_even x =
     (let f = \<lfloor>x\<rfloor>; d = x - of_int f
      in if d < 1 / 2 then f else if 1 / 2 < d then f + 1 else if even f then f else f + 1)"

text \<open>The binary64 number nearest to \<open>x\<close>, the exponent range unbounded above.\<close>

definition rnd64 :: "rat \<Rightarrow> rat" where
  "rnd64 x =
     (if x = 0 then 0
      else (let e = max (ilog2 \<bar>x\<bar>) (- 1022); ulp = pow2 (e - 52)
            in of_int (round_half_even (x / ulp)) * ulp))"

text \<open>The unit roundoff: half the distance between 1 and the next float.\<close>

definition u64 :: rat where
  "u64 = 1 / 2 ^ 53"

text \<open>The rounded value overflows when its magnitude reaches \<open>pow2 1024\<close>.\<close>

definition to_double :: "rat \<Rightarrow> pyfloat" where
  "to_double x =
     (let r = rnd64 x
      in if r = 0 then Finite 0
         else if 1024 \<le> ilog2 \<bar>r\<bar> then Inf (r < 0)
         else Finite r)"

text \<open>\<open>float(n)\<close> for an \<open>int\<close>: \<open>OverflowError\<close> when \<open>n\<close> is too large.\<close>

definition float_of_int :: "int \<Rightarrow> error + pyfloat" where
  "float_of_int n =
     (case to_double (of_int n) of Finite r \<Rightarrow> Inr (Finite r) | _ \<Rightarrow> Inl OverflowError)"

fun float_mul :: "pyfloat \<Rightarrow> pyfloat \<Rightarrow> pyfloat" where
  "float_mul (Finite a) (Finite b) = to_double (a * b)"
| "float_mul (Finite a) (Inf s) = (if a = 0 then NaN else Inf (s \<noteq> (a < 0)))"
| "float_mul (Inf s) (Finite b) = (if b = 0 then NaN else Inf (s \<noteq> (b < 0)))"
| "float_mul (Inf s) (Inf t) = Inf (s \<noteq> t)"
| "float_mul NaN _ = NaN"
| "float_mul _ NaN = NaN"

fun float_div :: "pyfloat \<Rightarrow> pyfloat \<Rightarrow> error + pyfloat" where
  "float_div a (Finite b) =
     (if b = 0 then Inl ZeroDivisionError
      else Inr (case a of
                  Finite x \<Rightarrow> to_double (x / b)
                | Inf s \<Rightarrow> Inf (s \<noteq> (b < 0))
                | NaN \<Rightarrow> NaN))"
| "float_div (Finite a) (Inf t) = Inr (Finite 0)"
| "float_div (Inf s) (Inf t) = Inr NaN"
| "float_div NaN (Inf t) = Inr NaN"
| "float_div a NaN = Inr NaN"

text \<open>
  \<open>round(x, 2)\<close>: the decimal with two fractional digits nearest to the exact value of
  \<open>x\<close>, ties to even, converted back to a float.
\<close>

definition py_round2 :: "pyfloat \<Rightarrow> error + pyfloat" where
  "py_round2 x =
     (case x of
        Finite r \<Rightarrow>
          (case to_double (of_int (round_half_even (r * 100)) / 100) of
             Finite y \<Rightarrow> Inr (Finite y)
           | _ \<Rightarrow> Inl OverflowError)
      | _ \<Rightarrow> Inr x)"

subsection \<open>The classifier report and the result\<close>

text \<open>
  The decoded classifier output. A report maps each language to an object whose \<open>size\<close>
  and \<open>files\<close> entries may be absent; when present, \<open>size\<close> is an integer and \<open>files\<close> a
  list of strings. Python dictionaries keep insertion order, so a dictionary is an
  association list. Any other decoded value is kept only with its truth value.
\<close>

record lang_info =
  info_size :: "int option"
  info_files :: "string list option"

type_synonym report = "(string \<times> lang_info) list"

datatype json_doc = JObject report | JOther bool

record stat =
  percent :: pyfloat
  lines :: int

type_synonym stats = "(string \<times> stat) list"

definition truthy :: "json_doc \<Rightarrow> bool" where
  "truthy d = (case d of JObject items \<Rightarrow> items \<noteq> [] | JOther b \<Rightarrow> b)"

text \<open>\<open>info.get("size", 0)\<close> and \<open>info.get("files", [])\<close>.\<close>

definition get_size :: "lang_info \<Rightarrow> int" where
  "get_size info = (case info_size info of None \<Rightarrow> 0 | Some s \<Rightarrow> s)"

definition get_files :: "lang_info \<Rightarrow> string list" where
  "get_files info = (case info_files info of None \<Rightarrow> [] | Some fs \<Rightarrow> fs)"

text \<open>\<open>sum(item.get("size", 0) for item in breakdown_data.values()) or 1\<close>.\<close>

definition total_bytes :: "report \<Rightarrow> int" where
  "total_bytes breakdown_data =
     (let s = sum_list (map (\<lambda>(language, item). get_size item) breakdown_data)
      in if s = 0 then 1 else s)"

text \<open>\<open>sum(self._count_lines(repo_dir / f) for f in files)\<close>.\<close>

fun sum_lines :: "world \<Rightarrow> path \<Rightarrow> string list \<Rightarrow> error + int" where
  "sum_lines w repo_dir [] = Inr 0"
| "sum_lines w repo_dir (f # fs) =
     (case count_lines w (joinpath repo_dir f) of
        Inl e \<Rightarrow> Inl e
      | Inr n \<Rightarrow> (case sum_lines w repo_dir fs of Inl e \<Rightarrow> Inl e | Inr m \<Rightarrow> Inr (n + m)))"

text \<open>\<open>round(size * 100.0 / total_bytes, 2)\<close>, for two \<open>int\<close>s.\<close>

definition percent_of :: "int \<Rightarrow> int \<Rightarrow> error + pyfloat" where
  "percent_of sz tot =
     (case float_of_int sz of
        Inl e \<Rightarrow> Inl e
      | Inr fs \<Rightarrow>
          (case float_of_int tot of
             Inl e \<Rightarrow> Inl e
           | Inr ft \<Rightarrow>
               (case float_div (float_mul fs (Finite 100)) ft of
                  Inl e \<Rightarrow> Inl e
                | Inr q \<Rightarrow> py_round2 q)))"

text \<open>The loop over \<open>breakdown_data.items()\<close>, filling \<open>stats\<close>.\<close>

fun stats_loop :: "world \<Rightarrow> path \<Rightarrow> int \<Rightarrow> report \<Rightarrow> stats \<Rightarrow> error + stats" where
  "stats_loop w repo_dir tot [] stats = Inr stats"
| "stats_loop w repo_dir tot ((language, info) # rest) stats =
     (case sum_lines w repo_dir (get_files info) of
        Inl e \<Rightarrow> Inl e
      | Inr n \<Rightarrow>
          (case percent_of (get_size info) tot of
             Inl e \<Rightarrow> Inl e
           | Inr pc \<Rightarrow>
               stats_loop w repo_dir tot rest
                 (AList.update language \<lparr>percent = pc, lines = n\<rparr> stats)))"

subsection \<open>External programs\<close>

record completed_process =
  returncode :: int
  stdout :: string
  stderr :: string

text \<open>
  What the wrapper does not decide itself: the name \<open>tempfile\<close> picks, what extracting the
  archive leaves behind, what a child process does and returns (or the error raised when
  it cannot be started), how the JSON decoder reads a string, the owner \<open>os.stat\<close>
  reports, and how many directory levels the interpreter can still descend before a
  \<open>RecursionError\<close> (its recursion limit less the frames in use, about 1000 by default).
\<close>

record env =
  mkdtemp :: "world \<Rightarrow> path"
  extractall :: "path \<Rightarrow> path \<Rightarrow> world \<Rightarrow> error option \<times> world"
  subprocess_run :: "string list \<Rightarrow> path option \<Rightarrow> world \<Rightarrow> (error + completed_process) \<times> world"
  json_loads :: "string \<Rightarrow> error + json_doc"
  os_stat :: "world \<Rightarrow> path \<Rightarrow> error + nat \<times> nat"
  recursion_budget :: nat

record linguist_wrapper =
  use_docker :: bool
  linguist_cmd :: string
  docker_image :: string

subsection \<open>Decimal rendering of integers\<close>

definition digit_char :: "nat \<Rightarrow> char" where
  "digit_char d = ''0123456789'' ! d"

fun str_nat :: "nat \<Rightarrow> string" where
  "str_nat n = (if n < 10 then [digit_char n] else str_nat (n div 10) @ [digit_char (n mod 10)])"

declare str_nat.simps [simp del]

definition str_int :: "int \<Rightarrow> string" where
  "str_int i = (if i < 0 then ''-'' @ str_nat (nat (- i)) else str_nat (nat i))"

subsection \<open>\<open>_execute_linguist\<close>, \<open>_run_linguist_breakdown\<close>, \<open>_collect_language_stats\<close>\<close>

definition linguist_command ::
  "env \<Rightarrow> linguist_wrapper \<Rightarrow> string list \<Rightarrow> path \<Rightarrow> world \<Rightarrow> error + string list \<times> path option"
where
  "linguist_command E self args repo_dir w =
     (if use_docker self then
        (case os_stat E w repo_dir of
           Inl e \<Rightarrow> Inl e
         | Inr (st_uid, st_gid) \<Rightarrow>
             Inr ([''docker'', ''run'', ''--rm'',
                   ''--user'', str_nat st_uid @ '':'' @ str_nat st_gid,
                   ''-v'', str_path repo_dir @ '':/repo:ro'',
                   ''-w'', ''/repo'',
                   docker_image self] @ args, None))
      else Inr (linguist_cmd self # args, Some repo_dir))"

definition execute_linguist ::
  "env \<Rightarrow> linguist_wrapper \<Rightarrow> string list \<Rightarrow> path \<Rightarrow> world \<Rightarrow> (error + string) \<times> world"
where
  "execute_linguist E self args repo_dir w =
     (case linguist_command E self args repo_dir w of
        Inl e \<Rightarrow> (Inl e, w)
      | Inr (cmd, cwd) \<Rightarrow>
          (case subprocess_run E cmd cwd w of
             (Inl e, w') \<Rightarrow> (Inl e, w')
           | (Inr result, w') \<Rightarrow>
               if returncode result \<noteq> 0 then
                 (Inl (RuntimeError (''github-linguist failed with code ''
                         @ str_int (returncode result) @ '': '' @ stderr result)), w')
               else (Inr (stdout result), w')))"

definition run_linguist_breakdown ::
  "env \<Rightarrow> linguist_wrapper \<Rightarrow> path \<Rightarrow> world \<Rightarrow> (error + json_doc) \<times> world"
where
  "run_linguist_breakdown E self repo_dir w =
     (case execute_linguist E self [''--breakdown'', ''--json'', ''.''] repo_dir w of
        (Inl e, w') \<Rightarrow> (Inl e, w')
      | (Inr output, w') \<Rightarrow> (json_loads E output, w'))"

definition collect_language_stats ::
  "env \<Rightarrow> linguist_wrapper \<Rightarrow> path \<Rightarrow> world \<Rightarrow> (error + stats) \<times> world"
where
  "collect_language_stats E self repo_dir w =
     (case run_linguist_breakdown E self repo_dir w of
        (Inl e, w') \<Rightarrow> (Inl e, w')
      | (Inr breakdown_data, w') \<Rightarrow>
          if \<not> truthy breakdown_data then
            (Inl (RuntimeError ''github-linguist returned empty result''), w')
          else
            (case breakdown_data of
               JOther _ \<Rightarrow> (Inl AttributeError, w')
             | JObject items \<Rightarrow> (stats_loop w' repo_dir (total_bytes items) items [], w')))"

subsection \<open>\<open>_init_git_repo\<close>\<close>

text \<open>\<open>run_git\<close>: \<open>subprocess.run\<close> with \<open>check=True\<close> in \<open>repo_path\<close>.\<close>

definition run_git :: "env \<Rightarrow> path \<Rightarrow> string list \<Rightarrow> world \<Rightarrow> error option \<times> world" where
  "run_git E repo_path cmd w =
     (case subprocess_run E cmd (Some repo_path) w of
        (Inl e, w') \<Rightarrow> (Some e, w')
      | (Inr result, w') \<Rightarrow>
          if returncode result \<noteq> 0 then (Some (CalledProcessError (returncode result) cmd), w')
          else (None, w'))"

definition init_git_repo :: "env \<Rightarrow> path \<Rightarrow> world \<Rightarrow> error option \<times> world" where
  "init_git_repo E repo_path w =
     (case run_git E repo_path [''git'', ''init'', ''-q''] w of
        (Some e, w1) \<Rightarrow> (Some e, w1)
      | (None, w1) \<Rightarrow>
          (case run_git E repo_path [''git'', ''add'', ''-A''] w1 of
             (Some e, w2) \<Rightarrow> (Some e, w2)
           | (None, w2) \<Rightarrow>
               run_git E repo_path
                 [''git'', ''-c'', ''user.name=linguist'', ''-c'',
                  ''user.email=linguist@example.com'', ''commit'', ''-m'', ''Initial commit'',
                  ''-q''] w2))"

subsection \<open>\<open>analyze_zip\<close>\<close>

text \<open>
  \<open>tempfile.TemporaryDirectory()\<close> as a context manager: the directory is created on
  entry; on exit, whether the body returns or raises, \<open>shutil.rmtree\<close> removes it, and an
  error of that removal is raised in place of the body's result.
\<close>

definition under :: "path \<Rightarrow> path \<Rightarrow> bool" where
  "under d p = (absolute p = absolute d \<and> prefix (parts d) (parts p))"

definition list_names :: "(string list \<Rightarrow> string list) \<Rightarrow> node option \<Rightarrow> node option" where
  "list_names f n = (case n of Some (Dir accessible ns) \<Rightarrow> Some (Dir accessible (f ns)) | other \<Rightarrow> other)"

definition create_dir :: "path \<Rightarrow> world \<Rightarrow> world" where
  "create_dir d w =
     w\<lparr>nodes := (\<lambda>p. if p = d then Some (Dir True [])
                     else if p = parent d then list_names (\<lambda>ns. ns @ [name d]) (nodes w p)
                     else nodes w p)\<rparr>"

text \<open>\<open>unlink\<close> or \<open>rmdir\<close> of one entry: it leaves its place and its parent's listing.\<close>

definition remove_node :: "path \<Rightarrow> world \<Rightarrow> world" where
  "remove_node d w =
     w\<lparr>nodes := (\<lambda>p. if p = d then None
                     else if p = parent d then list_names (removeAll (name d)) (nodes w p)
                     else nodes w p)\<rparr>"

text \<open>\<open>os.rmdir\<close>: only an empty directory can be removed.\<close>

definition rmdir :: "path \<Rightarrow> world \<Rightarrow> error option \<times> world" where
  "rmdir d w =
     (case nodes w d of
        Some (Dir accessible (n # ns)) \<Rightarrow> (Some (OSError ENOTEMPTY), w)
      | _ \<Rightarrow> (None, remove_node d w))"

text \<open>
  \<open>shutil.rmtree\<close> as CPython 3.11 runs it: one recursive call for every directory level.
  The entries of a directory are taken from its listing; a subdirectory is emptied and
  removed by the recursive call \<open>descend\<close>, any other entry is unlinked. The cleanup of
  \<open>TemporaryDirectory\<close> resets the permissions of what it may not remove and tries again,
  so permissions do not stop it.
\<close>

fun rmtree_entries ::
  "(path \<Rightarrow> world \<Rightarrow> error option \<times> world) \<Rightarrow> path \<Rightarrow> string list \<Rightarrow> world
     \<Rightarrow> error option \<times> world"
where
  "rmtree_entries descend d [] w = (None, w)"
| "rmtree_entries descend d (n # ns) w =
     (case nodes w (child d n) of
        Some (Dir accessible ms) \<Rightarrow>
          (case descend (child d n) w of
             (Some e, w') \<Rightarrow> (Some e, w')
           | (None, w') \<Rightarrow> rmtree_entries descend d ns w')
      | _ \<Rightarrow> rmtree_entries descend d ns (remove_node (child d n) w))"

primrec rmtree :: "nat \<Rightarrow> path \<Rightarrow> world \<Rightarrow> error option \<times> world" where
  "rmtree 0 = (\<lambda>d w. (Some RecursionError, w))"
| "rmtree (Suc budget) =
     (\<lambda>d w. case nodes w d of
        Some (Dir accessible ns) \<Rightarrow>
          (case rmtree_entries (rmtree budget) d ns w of
             (Some e, w') \<Rightarrow> (Some e, w')
           | (None, w') \<Rightarrow> rmdir d w')
      | Some (File readable content) \<Rightarrow> (Some NotADirectoryError, w)
      | Some SymlinkLoop \<Rightarrow> (Some (OSError ELOOP), w)
      | None \<Rightarrow> (None, w))"

text \<open>The body of the \<open>with tempfile.TemporaryDirectory()\<close> block.\<close>

definition analyze_in ::
  "env \<Rightarrow> linguist_wrapper \<Rightarrow> path \<Rightarrow> path \<Rightarrow> world \<Rightarrow> (error + stats) \<times> world"
where
  "analyze_in E self zip_path tmpdir_path w =
     (case extractall E zip_path tmpdir_path w of
        (Some e, w1) \<Rightarrow> (Inl e, w1)
      | (None, w1) \<Rightarrow>
          (case detect_project_root w1 tmpdir_path of
             Inl e \<Rightarrow> (Inl e, w1)
           | Inr project_root \<Rightarrow>
               (case init_git_repo E project_root w1 of
                  (Some e, w2) \<Rightarrow> (Inl e, w2)
                | (None, w2) \<Rightarrow> collect_language_stats E self project_root w2)))"

definition analyze_zip ::
  "env \<Rightarrow> linguist_wrapper \<Rightarrow> path \<Rightarrow> world \<Rightarrow> (error + stats) \<times> world"
where
  "analyze_zip E self zip_path w =
     (case is_file w zip_path of
        Inl e \<Rightarrow> (Inl e, w)
      | Inr False \<Rightarrow> (Inl (FileNotFoundError (''File not found: '' @ str_path zip_path)), w)
      | Inr True \<Rightarrow>
          (let tmpdir = mkdtemp E w;
               (result, w') = analyze_in E self zip_path tmpdir (create_dir tmpdir w)
           in case rmtree (recursion_budget E) tmpdir w' of
                (Some e, w'') \<Rightarrow> (Inl e, w'')
              | (None, w'') \<Rightarrow> (result, w'')))"

text \<open>
  The steps before the classifier succeed: the archive is a regular file, it is extracted
  into the temporary directory, \<open>project_root\<close> is the project root detected there, and the git
  bootstrap leaves the filesystem \<open>w2\<close>.
\<close>

definition prepared :: "env \<Rightarrow> path \<Rightarrow> world \<Rightarrow> path \<Rightarrow> world \<Rightarrow> bool" where
  "prepared E zip_path w project_root w2 \<longleftrightarrow>
     is_file w zip_path = Inr True \<and>
     (case extractall E zip_path (mkdtemp E w) (create_dir (mkdtemp E w) w) of
        (Some e, w1) \<Rightarrow> False
      | (None, w1) \<Rightarrow>
          (case detect_project_root w1 (mkdtemp E w) of
             Inl e \<Rightarrow> False
           | Inr r \<Rightarrow> r = project_root \<and> init_git_repo E r w1 = (None, w2)))"

subsection \<open>The result of the loop, entry by entry\<close>

text \<open>
  What the loop stores for one report entry: the same language, the percentage of its
  size and the lines of its files.
\<close>

definition entry_ok ::
  "world \<Rightarrow> path \<Rightarrow> int \<Rightarrow> string \<times> lang_info \<Rightarrow> string \<times> stat \<Rightarrow> bool"
where
  "entry_ok w d tot e r \<longleftrightarrow>
     fst r = fst e \<and> percent_of (get_size (snd e)) tot = Inr (percent (snd r))
       \<and> sum_lines w d (get_files (snd e)) = Inr (lines (snd r))"

text \<open>A report entry with its absent fields written out as the defaults of \<open>get\<close>.\<close>

definition with_defaults :: "lang_info \<Rightarrow> lang_info" where
  "with_defaults info = \<lparr>info_size = Some (get_size info), info_files = Some (get_files info)\<rparr>"

text \<open>The sum of the percentages of a result.\<close>

definition percent_sum :: "stats \<Rightarrow> rat" where
  "percent_sum stats =
     sum_list (map (\<lambda>(language, st). case percent st of Finite r \<Rightarrow> r | _ \<Rightarrow> 0) stats)"

subsection \<open>A worked scenario\<close>

text \<open>
  An uploaded archive that wraps \<open>main.py\<close> (10 lines) and \<open>lib.js\<close> (30 lines) in one
  folder \<open>project\<close>, next to a \<open>__MACOSX\<close> folder; git succeeds; the classifier prints a
  report that attributes 250 bytes to Python and 750 to JavaScript.
\<close>

definition upload_zip :: path where
  "upload_zip = Path True [''srv'', ''upload.zip'']"

definition tmp_dir :: path where
  "tmp_dir = Path True [''tmp'', ''tmpk3x9'']"

definition project_dir :: path where
  "project_dir = Path True [''tmp'', ''tmpk3x9'', ''project'']"

definition ten_lines :: "byte list" where
  "ten_lines = concat (replicate 10 [112, 97, 115, 115, 10])"

definition thirty_lines :: "byte list" where
  "thirty_lines = concat (replicate 30 [59, 10])"

definition disk :: world where
  "disk = \<lparr>nodes = (\<lambda>p. if p = upload_zip then Some (File True [80, 75, 3, 4])
                        else if p = Path True [''srv''] then Some (Dir True [''upload.zip''])
                        else if p = Path True [''tmp''] then Some (Dir True [])
                        else if p = Path True [] then Some (Dir True [''srv'', ''tmp''])
                        else None)\<rparr>"

definition unpack :: "path \<Rightarrow> path \<Rightarrow> world \<Rightarrow> error option \<times> world" where
  "unpack zip_path dest w =
     (None,
      w\<lparr>nodes := (\<lambda>p. if p = dest then Some (Dir True [''__MACOSX'', ''project''])
                      else if p = child dest ''__MACOSX'' then Some (Dir True [])
                      else if p = child dest ''project'' then Some (Dir True [''main.py'', ''lib.js''])
                      else if p = child (child dest ''project'') ''main.py''
                        then Some (File True ten_lines)
                      else if p = child (child dest ''project'') ''lib.js''
                        then Some (File True thirty_lines)
                      else nodes w p)\<rparr>)"

definition unpacked :: world where
  "unpacked = snd (unpack upload_zip tmp_dir (create_dir tmp_dir disk))"

definition report_text :: string where
  "report_text = ''Python 250 main.py; JavaScript 750 lib.js''"

definition decoded_report :: report where
  "decoded_report =
     [(''Python'', \<lparr>info_size = Some 250, info_files = Some [''main.py'']\<rparr>),
      (''JavaScript'', \<lparr>info_size = Some 750, info_files = Some [''lib.js'']\<rparr>)]"

text \<open>
  The environment of the scenario, for a given outcome of the classifier process and a
  given decoding of \<open>report_text\<close>.
\<close>

definition scenario :: "completed_process \<Rightarrow> json_doc \<Rightarrow> env" where
  "scenario classifier decoded =
     \<lparr>mkdtemp = (\<lambda>w. tmp_dir),
      extractall = unpack,
      subprocess_run = (\<lambda>cmd cwd w.
        if hd cmd = ''git'' then (Inr \<lparr>returncode = 0, stdout = [], stderr = []\<rparr>, w)
        else (Inr classifier, w)),
      json_loads = (\<lambda>s. if s = report_text then Inr decoded else Inl JSONDecodeError),
      os_stat = (\<lambda>w p. Inr (1000, 1000)),
      recursion_budget = 1000\<rparr>"

definition local_wrapper :: linguist_wrapper where
  "local_wrapper =
     \<lparr>use_docker = False, linguist_cmd = ''github-linguist'', docker_image = ''linguist''\<rparr>"

definition docker_wrapper :: linguist_wrapper where
  "docker_wrapper =
     \<lparr>use_docker = True, linguist_cmd = ''github-linguist'', docker_image = ''linguist''\<rparr>"

definition classifier_ok :: completed_process where
  "classifier_ok = \<lparr>returncode = 0, stdout = report_text, stderr = []\<rparr>"

definition classifier_garbled :: completed_process where
  "classifier_garbled = \<lparr>returncode = 0, stdout = ''<html>'', stderr = []\<rparr>"

definition classifier_failed :: completed_process where
  "classifier_failed = \<lparr>returncode = 2, stdout = [], stderr = ''no such repo''\<rparr>"

definition expected_stats :: stats where
  "expected_stats =
     [(''Python'', \<lparr>percent = Finite 25, lines = 10\<rparr>),
      (''JavaScript'', \<lparr>percent = Finite 75, lines = 30\<rparr>)]"


text \<open>Seven languages of one byte each.\<close>

definition seven_report :: report where
  "seven_report =
     map (\<lambda>l. (l, \<lparr>info_size = Some 1, info_files = Some []\<rparr>))
       [''C'', ''Go'', ''Lua'', ''Nim'', ''Perl'', ''Ruby'', ''Zig'']"

text \<open>The float nearest to 14.29.\<close>

definition f14_29 :: rat where
  "f14_29 = 2011138708597637 / 140737488355328"

definition seven_stats :: stats where
  "seven_stats =
     map (\<lambda>l. (l, \<lparr>percent = Finite f14_29, lines = 0\<rparr>))
       [''C'', ''Go'', ''Lua'', ''Nim'', ''Perl'', ''Ruby'', ''Zig'']"

text \<open>
  A second archive: 1200 directories \<open>d\<close> nested in one another, more than the interpreter
  can descend.
\<close>

definition deep_unpack :: "nat \<Rightarrow> path \<Rightarrow> path \<Rightarrow> world \<Rightarrow> error option \<times> world" where
  "deep_unpack n zip_path dest w =
     (None,
      w\<lparr>nodes := (\<lambda>p. if under dest p
                           \<and> list_all (\<lambda>c. c = ''d'') (drop (length (parts dest)) (parts p))
                           \<and> length (parts p) \<le> length (parts dest) + n
                      then Some (Dir True (if length (parts p) < length (parts dest) + n
                                           then [''d''] else []))
                      else nodes w p)\<rparr>)"

definition deep_unpacked :: world where
  "deep_unpacked = snd (deep_unpack 1200 upload_zip tmp_dir (create_dir tmp_dir disk))"

definition nested :: "nat \<Rightarrow> path" where
  "nested k = Path True ([''tmp'', ''tmpk3x9''] @ replicate k ''d'')"

definition deep_scenario :: "completed_process \<Rightarrow> json_doc \<Rightarrow> env" where
  "deep_scenario classifier decoded = (scenario classifier decoded)\<lparr>extractall := deep_unpack 1200\<rparr>"


section \<open>Auxiliary facts\<close>

subsection \<open>Chunked reading, paths, dictionaries\<close>

lemma read_chunks_concat: "0 < n \<Longrightarrow> concat (read_chunks n content) = content"
proof (induction n content rule: read_chunks.induct)
  case (1 n content)
  show ?case
  proof (cases "take n content = []")
    case True
    with 1(2) have "content = []" by simp
    then show ?thesis by (simp add: read_chunks.simps)
  next
    case False
    with 1 have "concat (read_chunks n (drop n content)) = drop n content" by simp
    with False show ?thesis by (subst read_chunks.simps) (simp add: Let_def)
  qed
qed

lemma count_byte_append: "count_byte b (xs @ ys) = count_byte b xs + count_byte b ys"
  by (simp add: count_byte_def)

lemma count_byte_concat: "sum_list (map (count_byte b) xss) = count_byte b (concat xss)"
  by (induction xss) (simp_all add: count_byte_append, simp add: count_byte_def)

lemma chunked_count: "0 < n \<Longrightarrow> sum_list (map (count_byte b) (read_chunks n content)) = count_byte b content"
  by (simp add: count_byte_concat read_chunks_concat)

lemma chunk_size_pos: "0 < chunk_size"
  by (simp add: chunk_size_def)

lemma name_child: "name (child d n) = n"
  by (simp add: name_def child_def)

lemma stats_loop_keys:
  "stats_loop w repo_dir tot bd acc = Inr stats \<Longrightarrow>
     set (map fst stats) = set (map fst acc) \<union> set (map fst bd)"
proof (induction bd arbitrary: acc)
  case Nil
  then show ?case by simp
next
  case (Cons a bd)
  obtain language info where a: "a = (language, info)" by (cases a)
  from Cons.prems obtain n pc where
    "stats_loop w repo_dir tot bd (AList.update language \<lparr>percent = pc, lines = n\<rparr> acc) = Inr stats"
    by (auto simp: a split: sum.splits)
  from Cons.IH [OF this] show ?case
    by (auto simp: a update_keys)
qed

subsection \<open>Rounding to binary64\<close>

lemma pow2_powi: "pow2 e = 2 powi e"
  by (simp add: pow2_def power_int_def field_simps)

lemma pow2_pos: "0 < pow2 e"
  by (simp add: pow2_powi)

lemma pow2_add: "pow2 (a + b) = pow2 a * pow2 b"
  by (simp add: pow2_powi power_int_add)

lemma pow2_mono: "a \<le> b \<Longrightarrow> pow2 a \<le> pow2 b"
  by (simp add: pow2_powi power_int_increasing)

lemma pow2_less_cancel: "pow2 a < pow2 b \<Longrightarrow> a < b"
  using pow2_mono [of b a] by (cases "a < b") auto

lemma bit_length_bounds:
  "0 < n \<Longrightarrow> 2 ^ bit_length n \<le> 2 * n \<and> n < 2 ^ bit_length n"
proof (induction n rule: bit_length.induct)
  case (1 n)
  show ?case
  proof (cases "n = 1")
    case True
    then show ?thesis by (simp add: bit_length.simps [of 1] bit_length.simps [of 0])
  next
    case False
    with 1(2) have pos: "0 < n div 2" by simp
    with 1 have IH: "2 ^ bit_length (n div 2) \<le> 2 * (n div 2) \<and> n div 2 < 2 ^ bit_length (n div 2)"
      by simp
    have eq: "bit_length n = Suc (bit_length (n div 2))"
      using 1(2) by (subst bit_length.simps) simp
    from IH show ?thesis unfolding eq by simp linarith
  qed
qed

lemma ilog2_bounds:
  assumes "0 < x"
  shows "pow2 (ilog2 x) \<le> x \<and> x < pow2 (ilog2 x + 1)"
proof -
  obtain p q where pq: "quotient_of x = (p, q)" by (cases "quotient_of x")
  then have q: "0 < q" and x: "x = of_int p / of_int q"
    by (simp_all add: quotient_of_denom_pos quotient_of_div)
  with assms have p: "0 < p" by (simp add: zero_less_divide_iff)
  let ?d = "int (bit_length p) - int (bit_length q)"
  have bp: "(2::rat) ^ bit_length p \<le> 2 * of_int p" "(of_int p :: rat) < 2 ^ bit_length p"
    using bit_length_bounds [OF p]
    by (metis of_int_le_iff of_int_mult of_int_numeral of_int_power,
        metis of_int_less_iff of_int_numeral of_int_power)
  have bq: "(2::rat) ^ bit_length q \<le> 2 * of_int q" "(of_int q :: rat) < 2 ^ bit_length q"
    using bit_length_bounds [OF q]
    by (metis of_int_le_iff of_int_mult of_int_numeral of_int_power,
        metis of_int_less_iff of_int_numeral of_int_power)
  have d: "pow2 ?d = 2 ^ bit_length p / 2 ^ bit_length q"
    by (simp add: pow2_powi power_int_diff)
  have up: "x < pow2 (?d + 1)"
  proof -
    have "x * 2 ^ bit_length q \<le> x * (2 * of_int q)"
      using bq(1) assms by (simp add: mult_left_mono)
    also have "\<dots> = 2 * of_int p" using q by (simp add: x)
    also have "\<dots> < 2 * 2 ^ bit_length p" using bp(2) by simp
    finally have "x < 2 * 2 ^ bit_length p / 2 ^ bit_length q"
      by (simp add: pos_less_divide_eq)
    moreover have "pow2 (?d + 1) = pow2 ?d * 2"
      using pow2_add [of ?d 1] by (simp add: pow2_def)
    ultimately show ?thesis by (simp add: d mult.commute)
  qed
  have low: "pow2 (?d - 1) \<le> x"
  proof -
    have "2 ^ bit_length p * of_int q \<le> (2 * of_int p) * (2 ^ bit_length q :: rat)"
      using bp(1) bq(2) q p by (intro mult_mono) simp_all
    then have "2 ^ bit_length p / 2 ^ bit_length q \<le> 2 * x"
      using q by (simp add: x field_simps)
    moreover have "pow2 (?d - 1) = pow2 ?d / 2"
      using pow2_add [of ?d "- 1"] by (simp add: pow2_def)
    ultimately show ?thesis by (simp add: d)
  qed
  show ?thesis
  proof (cases "pow2 ?d \<le> x")
    case True
    then have "ilog2 x = ?d" by (simp add: ilog2_def pq)
    with True up show ?thesis by simp
  next
    case False
    then have "ilog2 x = ?d - 1" by (simp add: ilog2_def pq)
    with False low show ?thesis by simp
  qed
qed

lemma round_half_even_err: "\<bar>of_int (round_half_even x) - x\<bar> \<le> 1 / 2"
proof -
  have "of_int \<lfloor>x\<rfloor> \<le> x" "x < of_int \<lfloor>x\<rfloor> + 1" by linarith+
  then show ?thesis
    by (auto simp: round_half_even_def Let_def abs_le_iff)
qed

lemma round_half_even_nonneg: "0 \<le> x \<Longrightarrow> 0 \<le> round_half_even x"
  by (auto simp: round_half_even_def Let_def)

lemma rnd64_nonneg: "0 \<le> x \<Longrightarrow> 0 \<le> rnd64 x"
  by (simp add: rnd64_def Let_def round_half_even_nonneg pow2_pos less_imp_le)

lemma rnd64_err:
  assumes "pow2 (- 1022) \<le> \<bar>x\<bar>"
  shows "\<bar>rnd64 x - x\<bar> \<le> \<bar>x\<bar> * u64"
proof -
  from assms pow2_pos [of "- 1022"] have nz: "x \<noteq> 0" and pos: "0 < \<bar>x\<bar>" by auto
  let ?e = "ilog2 \<bar>x\<bar>"
  have b: "pow2 ?e \<le> \<bar>x\<bar>" "\<bar>x\<bar> < pow2 (?e + 1)"
    using ilog2_bounds [OF pos] by simp_all
  from assms b(2) have "pow2 (- 1022) < pow2 (?e + 1)" by simp
  then have "- 1022 \<le> ?e" using pow2_less_cancel by fastforce
  then have e: "max ?e (- 1022) = ?e" by simp
  let ?ulp = "pow2 (?e - 52)"
  have ulp: "0 < ?ulp" by (rule pow2_pos)
  have r: "rnd64 x = of_int (round_half_even (x / ?ulp)) * ?ulp"
    using nz by (simp add: rnd64_def e Let_def)
  have "rnd64 x - x = (of_int (round_half_even (x / ?ulp)) - x / ?ulp) * ?ulp"
    using ulp by (simp add: r left_diff_distrib)
  then have "\<bar>rnd64 x - x\<bar> = \<bar>of_int (round_half_even (x / ?ulp)) - x / ?ulp\<bar> * ?ulp"
    using ulp by (simp add: abs_mult)
  also have "\<dots> \<le> 1 / 2 * ?ulp"
    using round_half_even_err ulp by (intro mult_right_mono) simp_all
  also have "\<dots> = pow2 ?e * u64"
    using pow2_add [of ?e "- 53"] pow2_add [of ?e "- 52"] by (simp add: pow2_def u64_def)
  also have "\<dots> \<le> \<bar>x\<bar> * u64" using b(1) by (simp add: mult_right_mono u64_def)
  finally show ?thesis .
qed

lemma pow2_small: "pow2 (- 1022) = 1 / 2 ^ 1022"
  by (simp add: pow2_def)

lemma pow2_big: "pow2 1024 = 2 ^ 1024"
  by (simp add: pow2_def)

lemma u64_bounds: "0 < u64" "u64 < 1"
  by (simp_all add: u64_def)

lemma rnd64_between:
  assumes "pow2 (- 1022) \<le> lo" and "lo \<le> x" and "x \<le> hi"
  shows "lo * (1 - u64) \<le> rnd64 x" and "rnd64 x \<le> hi * (1 + u64)"
proof -
  from assms pow2_pos [of "- 1022"] have x: "0 < x" "pow2 (- 1022) \<le> \<bar>x\<bar>" by auto
  from rnd64_err [OF x(2)] x(1) have "\<bar>rnd64 x - x\<bar> \<le> x * u64" by simp
  then have a: "x * (1 - u64) \<le> rnd64 x" and b: "rnd64 x \<le> x * (1 + u64)"
    by (simp_all add: abs_le_iff algebra_simps)
  have "lo * (1 - u64) \<le> x * (1 - u64)"
    using assms(2) u64_bounds by (intro mult_right_mono) simp_all
  with a show "lo * (1 - u64) \<le> rnd64 x" by simp
  have "x * (1 + u64) \<le> hi * (1 + u64)"
    using assms(3) u64_bounds by (intro mult_right_mono) simp_all
  with b show "rnd64 x \<le> hi * (1 + u64)" by simp
qed

lemma to_double_finite:
  assumes "\<bar>rnd64 x\<bar> < pow2 1024"
  shows "to_double x = Finite (rnd64 x)"
proof (cases "rnd64 x = 0")
  case True
  then show ?thesis by (simp add: to_double_def)
next
  case False
  then have "0 < \<bar>rnd64 x\<bar>" by simp
  from ilog2_bounds [OF this] assms have "pow2 (ilog2 \<bar>rnd64 x\<bar>) < pow2 1024" by simp
  then have "ilog2 \<bar>rnd64 x\<bar> < 1024" by (rule pow2_less_cancel)
  with False show ?thesis by (simp add: to_double_def Let_def)
qed

lemma to_double_zero: "to_double 0 = Finite 0"
  by (simp add: to_double_def rnd64_def)

lemma rnd64_100: "rnd64 100 = 100"
  by code_simp

lemma float_of_int_zero: "float_of_int 0 = Inr (Finite 0)"
  by (simp add: float_of_int_def to_double_zero)

lemma float_of_int_ok:
  assumes "1 \<le> n" and "n < 2 ^ 1000"
  shows "\<exists>a. float_of_int n = Inr (Finite a)
           \<and> of_int n * (1 - u64) \<le> a \<and> a \<le> of_int n * (1 + u64)"
proof -
  let ?N = "of_int n :: rat"
  have N: "1 \<le> ?N" "?N < 2 ^ 1000"
    using assms by (simp, metis of_int_less_iff of_int_numeral of_int_power)
  have "pow2 (- 1022) \<le> ?N" using N(1) by (simp add: pow2_small)
  from rnd64_between [OF this order_refl order_refl]
  have b: "?N * (1 - u64) \<le> rnd64 ?N" "rnd64 ?N \<le> ?N * (1 + u64)" by simp_all
  have "0 \<le> rnd64 ?N" using N(1) by (intro rnd64_nonneg) simp
  moreover have "?N * (1 + u64) \<le> 2 ^ 1000 * 2"
    using N u64_bounds by (intro mult_mono) simp_all
  ultimately have "\<bar>rnd64 ?N\<bar> < pow2 1024" using b(2) by (simp add: pow2_big)
  then have "to_double ?N = Finite (rnd64 ?N)" by (rule to_double_finite)
  with b show ?thesis by (simp add: float_of_int_def)
qed

lemma round2_ok:
  assumes "0 \<le> q" and "q \<le> 100 + 1 / 1000"
  shows "\<exists>p. py_round2 (Finite q) = Inr (Finite p) \<and> 0 \<le> p \<and> p \<le> 100
           \<and> \<bar>p - q\<bar> \<le> 1 / 200 + 100 * u64"
proof -
  let ?k = "round_half_even (q * 100)"
  let ?c = "of_int ?k / 100 :: rat"
  have err: "\<bar>of_int ?k - q * 100\<bar> \<le> 1 / 2" by (rule round_half_even_err)
  have k0: "0 \<le> ?k" using assms(1) by (intro round_half_even_nonneg) simp
  have "(of_int ?k :: rat) < 10001" using err assms(2) by linarith
  then have "?k < 10001" by (metis of_int_less_iff of_int_numeral)
  then have k1: "?k \<le> 10000" by simp
  have c: "0 \<le> ?c" "?c \<le> 100" using k0 k1 by simp_all
  have cq: "\<bar>?c - q\<bar> \<le> 1 / 200" using err by linarith
  have p: "0 \<le> rnd64 ?c \<and> rnd64 ?c \<le> 100 \<and> \<bar>rnd64 ?c - ?c\<bar> \<le> 100 * u64"
  proof (cases "?k = 0")
    case True
    then show ?thesis using u64_bounds by (simp add: rnd64_def)
  next
    case False
    with k0 have "1 \<le> ?k" by simp
    then have "(1::rat) \<le> of_int ?k" by (metis of_int_1 of_int_le_iff)
    then have c1: "1 / 100 \<le> ?c" by simp
    then have "pow2 (- 1022) \<le> \<bar>?c\<bar>" by (simp add: pow2_small)
    from rnd64_err [OF this] c have e: "\<bar>rnd64 ?c - ?c\<bar> \<le> ?c * u64" by simp
    have "?c * u64 \<le> 100 * u64" using c(2) u64_bounds by (intro mult_right_mono) simp_all
    with e have e': "\<bar>rnd64 ?c - ?c\<bar> \<le> 100 * u64" by simp
    have "rnd64 ?c \<le> 100"
    proof (cases "?k = 10000")
      case True
      then show ?thesis by (simp add: rnd64_100)
    next
      case False
      with k1 have "?k \<le> 9999" by simp
      then have "(of_int ?k :: rat) \<le> 9999" by (metis of_int_le_iff of_int_numeral)
      then have "?c \<le> 9999 / 100" by simp
      moreover have "(9999 / 100 :: rat) + 100 * u64 \<le> 100" by (simp add: u64_def)
      ultimately show ?thesis using e' by linarith
    qed
    with e' c(1) show ?thesis by (simp add: rnd64_nonneg)
  qed
  then have "\<bar>rnd64 ?c\<bar> < pow2 1024" by (simp add: pow2_big)
  then have "to_double ?c = Finite (rnd64 ?c)" by (rule to_double_finite)
  then have "py_round2 (Finite q) = Inr (Finite (rnd64 ?c))" by (simp add: py_round2_def)
  moreover have "\<bar>rnd64 ?c - q\<bar> \<le> 1 / 200 + 100 * u64" using p cq by linarith
  ultimately show ?thesis using p by blast
qed

lemma roundoff_cubed:
  "1 - 5 * u64 \<le> (1 - u64) ^ 3 / (1 + u64)" "(1 + u64) ^ 3 / (1 - u64) \<le> 1 + 5 * u64"
  by (simp_all add: u64_def power_divide)

lemma quotient_ok:
  fixes S Tr a t :: rat
  assumes S: "1 \<le> S" "S \<le> Tr" "Tr < 2 ^ 1000"
    and a: "S * (1 - u64) \<le> a" "a \<le> S * (1 + u64)"
    and t: "Tr * (1 - u64) \<le> t" "t \<le> Tr * (1 + u64)"
  shows "\<exists>q. float_div (float_mul (Finite a) (Finite 100)) (Finite t) = Inr (Finite q)
           \<and> 0 \<le> q \<and> \<bar>q - 100 * S / Tr\<bar> \<le> 500 * u64"
proof -
  define L where "L = 1 - u64"
  define U where "U = 1 + u64"
  have LU: "1 / 2 \<le> L" "L \<le> 1" "1 \<le> U" "U \<le> 2" "0 < L" "0 < U"
    by (simp_all add: L_def U_def u64_def)
  have Tr: "1 \<le> Tr" "0 < Tr" using S by simp_all
  let ?b = "rnd64 (a * 100)"
  have lo1: "S * L * 100 \<le> a * 100" and hi1: "a * 100 \<le> S * U * 100"
    using a by (simp_all add: L_def U_def)
  have "1 * (1 / 2) \<le> S * L" using S(1) LU by (intro mult_mono) simp_all
  then have SL: "1 / 2 \<le> S * L" by simp
  then have "pow2 (- 1022) \<le> S * L * 100" by (simp add: pow2_small)
  from rnd64_between [OF this lo1 hi1]
  have b: "S * L * 100 * L \<le> ?b" "?b \<le> S * U * 100 * U" by (simp_all add: L_def U_def)
  have "1 / 2 * (1 / 2) \<le> S * L * L" using SL LU by (intro mult_mono) simp_all
  then have SLL: "25 \<le> S * L * 100 * L" by (simp add: mult_ac)
  from SLL b(1) have b25: "25 \<le> ?b" by (rule order_trans)
  have "S * U \<le> 2 ^ 1000 * 2" using S LU by (intro mult_mono) simp_all
  then have "S * U * U \<le> 2 ^ 1000 * 2 * 2" using S LU by (intro mult_mono) simp_all
  then have "S * U * 100 * U \<le> 2 ^ 1000 * 400" by (simp add: mult_ac)
  with b(2) have "?b \<le> 2 ^ 1000 * 400" by (rule order_trans)
  with b25 have "\<bar>?b\<bar> < pow2 1024" by (simp add: pow2_big)
  then have mul: "float_mul (Finite a) (Finite 100) = Finite ?b"
    by (simp add: to_double_finite)
  have "Tr * L \<le> t" "t \<le> Tr * U" using t by (simp_all add: L_def U_def)
  note t' = this
  have "1 * (1 / 2) \<le> Tr * L" using Tr LU by (intro mult_mono) simp_all
  with t'(1) have tpos: "0 < t" by simp
  have TU: "Tr * U \<le> 2 ^ 1000 * 2" using S Tr LU by (intro mult_mono) simp_all
  have TL: "0 < Tr * L" using Tr LU by simp
  let ?q = "rnd64 (?b / t)"
  have div: "float_div (Finite ?b) (Finite t) = Inr (to_double (?b / t))"
    using tpos by simp
  have n0: "0 \<le> S * L * 100 * L" using SLL by linarith
  have b0: "0 \<le> ?b" using b25 by linarith
  have TU0: "0 < Tr * U" using Tr LU by simp
  have lo2: "S * L * 100 * L / (Tr * U) \<le> ?b / t"
    by (rule frac_le [OF b0 b(1) tpos t'(2)])
  have hi2: "?b / t \<le> S * U * 100 * U / (Tr * L)"
    by (rule frac_le [OF order_trans [OF b0 b(2)] b(2) TL t'(1)])
  have "25 / (2 ^ 1000 * 2) \<le> S * L * 100 * L / (Tr * U)"
    by (rule frac_le [OF n0 SLL TU0 TU])
  then have "pow2 (- 1022) \<le> S * L * 100 * L / (Tr * U)"
    by (simp add: pow2_small)
  from rnd64_between [OF this lo2 hi2]
  have q: "S * L * 100 * L / (Tr * U) * L \<le> ?q" "?q \<le> S * U * 100 * U / (Tr * L) * U"
    by (simp_all add: L_def U_def)
  define x where "x = 100 * S / Tr"
  have x: "0 < x" "x \<le> 100" using S(1,2) Tr(2) by (simp_all add: x_def pos_divide_le_eq)
  have "S * L * 100 * L / (Tr * U) * L = x * (L ^ 3 / U)"
    using LU Tr by (simp add: x_def power3_eq_cube)
  moreover have "x * (1 - 5 * u64) \<le> x * (L ^ 3 / U)"
    using x roundoff_cubed(1) by (intro mult_left_mono) (simp_all add: L_def U_def)
  ultimately have low: "x * (1 - 5 * u64) \<le> ?q" using q(1) by simp
  have "S * U * 100 * U / (Tr * L) * U = x * (U ^ 3 / L)"
    using LU Tr by (simp add: x_def power3_eq_cube)
  moreover have "x * (U ^ 3 / L) \<le> x * (1 + 5 * u64)"
    using x roundoff_cubed(2) by (intro mult_left_mono) (simp_all add: L_def U_def)
  ultimately have up: "?q \<le> x * (1 + 5 * u64)" using q(2) by simp
  have xu: "x * (5 * u64) \<le> 100 * (5 * u64)"
    using x u64_bounds by (intro mult_right_mono) simp_all
  have err: "\<bar>?q - x\<bar> \<le> 500 * u64"
    using low up xu by (simp add: abs_le_iff algebra_simps)
  have q0: "0 \<le> ?q" using b0 tpos by (intro rnd64_nonneg) simp
  have "500 * u64 \<le> 1" by (simp add: u64_def)
  with err x q0 have "\<bar>?q\<bar> < pow2 1024" by (simp add: pow2_big abs_le_iff)
  then have "to_double (?b / t) = Finite ?q" by (rule to_double_finite)
  with mul div err q0 show ?thesis by (simp add: x_def)
qed

lemma percent_of_accuracy:
  assumes "0 \<le> s" and "s \<le> T" and "1 \<le> T" and "T < 2 ^ 1000"
  shows "\<exists>r. percent_of s T = Inr (Finite r) \<and> 0 \<le> r \<and> r \<le> 100
           \<and> \<bar>r - 100 * of_int s / of_int T\<bar> \<le> 1 / 200 + 600 * u64"
proof -
  from float_of_int_ok [OF assms(3,4)] obtain t where
    t: "float_of_int T = Inr (Finite t)" "of_int T * (1 - u64) \<le> t" "t \<le> of_int T * (1 + u64)"
    by blast
  have T1: "(1::rat) \<le> of_int T" using assms(3) by simp
  show ?thesis
  proof (cases "s = 0")
    case True
    have pos: "0 < 1 - u64" using u64_bounds by simp
    have "1 * (1 - u64) \<le> of_int T * (1 - u64)"
      using T1 pos by (intro mult_right_mono) simp_all
    then have "1 - u64 \<le> of_int T * (1 - u64)" by simp
    from this t(2) have "1 - u64 \<le> t" by (rule order_trans)
    with pos have "t \<noteq> 0" by simp
    then have "percent_of 0 T = Inr (Finite 0)"
      by (simp add: percent_of_def float_of_int_zero t(1) to_double_zero py_round2_def
          round_half_even_def)
    with True u64_bounds show ?thesis by simp
  next
    case False
    with assms have s: "1 \<le> s" "s < 2 ^ 1000" by simp_all
    from float_of_int_ok [OF s] obtain a where
      a: "float_of_int s = Inr (Finite a)" "of_int s * (1 - u64) \<le> a" "a \<le> of_int s * (1 + u64)"
      by blast
    have S: "(1::rat) \<le> of_int s" "(of_int s :: rat) \<le> of_int T" "(of_int T :: rat) < 2 ^ 1000"
      using s(1) assms(2,4)
      by (simp, simp, metis of_int_less_iff of_int_numeral of_int_power)
    from quotient_ok [OF S a(2,3) t(2,3)] obtain q where
      q: "float_div (float_mul (Finite a) (Finite 100)) (Finite t) = Inr (Finite q)"
         "0 \<le> q" "\<bar>q - 100 * of_int s / of_int T\<bar> \<le> 500 * u64"
      by blast
    have x: "100 * (of_int s :: rat) / of_int T \<le> 100"
      using S(2) T1 by (simp add: pos_divide_le_eq)
    have "500 * u64 \<le> 1 / 1000" by (simp add: u64_def)
    with q(3) x have "q \<le> 100 + 1 / 1000" by linarith
    from round2_ok [OF q(2) this] obtain p where
      p: "py_round2 (Finite q) = Inr (Finite p)" "0 \<le> p" "p \<le> 100"
         "\<bar>p - q\<bar> \<le> 1 / 200 + 100 * u64"
      by blast
    have "percent_of s T = Inr (Finite p)"
      unfolding percent_of_def a(1) t(1) by (simp only: sum.case q(1) p(1))
    moreover have "\<bar>p - 100 * of_int s / of_int T\<bar> \<le> 1 / 200 + 600 * u64"
      using p(4) q(3) by linarith
    ultimately show ?thesis using p(2,3) by blast
  qed
qed

lemma update_fresh: "k \<notin> fst ` set al \<Longrightarrow> AList.update k v al = al @ [(k, v)]"
  by (induction al) auto

lemma stats_loop_shape:
  assumes "distinct (map fst bd)" and "fst ` set bd \<inter> fst ` set acc = {}"
      and "stats_loop w d T bd acc = Inr stats"
  shows "\<exists>new. stats = acc @ new \<and> list_all2 (entry_ok w d T) bd new"
  using assms
proof (induction bd arbitrary: acc)
  case Nil
  then show ?case by simp
next
  case (Cons e bd)
  obtain language info where e: "e = (language, info)" by (cases e)
  from Cons.prems(3) obtain n pc where
    n: "sum_lines w d (get_files info) = Inr n" and
    pc: "percent_of (get_size info) T = Inr pc" and
    rest: "stats_loop w d T bd (AList.update language \<lparr>percent = pc, lines = n\<rparr> acc) = Inr stats"
    by (auto simp: e split: sum.splits)
  from Cons.prems(2) have fresh: "language \<notin> fst ` set acc" by (auto simp: e)
  let ?acc = "acc @ [(language, \<lparr>percent = pc, lines = n\<rparr>)]"
  have upd: "AList.update language \<lparr>percent = pc, lines = n\<rparr> acc = ?acc"
    using fresh by (rule update_fresh)
  have "distinct (map fst bd)" using Cons.prems(1) by simp
  moreover have "fst ` set bd \<inter> fst ` set ?acc = {}"
    using Cons.prems(1,2) by (auto simp: e)
  ultimately obtain new where
    new: "stats = ?acc @ new" "list_all2 (entry_ok w d T) bd new"
    using Cons.IH [of ?acc] rest unfolding upd by blast
  have "entry_ok w d T e (language, \<lparr>percent = pc, lines = n\<rparr>)"
    by (simp add: entry_ok_def e n pc)
  with new show ?case by (intro exI [of _ "(language, \<lparr>percent = pc, lines = n\<rparr>) # new"]) simp
qed


lemma member_le_sum_list_int:
  fixes x :: int
  shows "x \<in> set xs \<Longrightarrow> \<forall>y \<in> set xs. 0 \<le> y \<Longrightarrow> x \<le> sum_list xs"
proof (induction xs)
  case Nil
  then show ?case by simp
next
  case (Cons a xs)
  have "0 \<le> sum_list xs" using Cons.prems(2) by (intro sum_list_nonneg) simp
  with Cons show ?case by auto
qed

lemma sum_error_bound:
  fixes Tr eps :: rat
  assumes "list_all2 (\<lambda>s r. \<bar>r - 100 * of_int s / Tr\<bar> \<le> eps) ss rs"
  shows "\<bar>sum_list rs - 100 * of_int (sum_list ss) / Tr\<bar> \<le> of_nat (length rs) * eps"
  using assms
proof (induction rule: list_all2_induct)
  case Nil
  then show ?case by simp
next
  case (Cons s ss r rs)
  have "sum_list (r # rs) - 100 * of_int (sum_list (s # ss)) / Tr
      = (r - 100 * of_int s / Tr) + (sum_list rs - 100 * of_int (sum_list ss) / Tr)"
    by (simp add: add_divide_distrib distrib_left)
  with Cons show ?case by (simp add: distrib_right)
qed

subsection \<open>Path lookup and removal\<close>

lemma filter_err_ok:
  "\<forall>x \<in> set xs. \<exists>b. P x = Inr b \<Longrightarrow> filter_err P xs = Inr (filter (\<lambda>x. P x = Inr True) xs)"
  by (induction xs) auto

lemma walk_found:
  "walk w full (Path a xs) cs = Inr n \<Longrightarrow> k \<le> length cs
     \<Longrightarrow> nodes w (Path a (xs @ take k cs)) \<noteq> None"
proof (induction cs arbitrary: xs k)
  case Nil
  then show ?case by (auto split: option.splits)
next
  case (Cons c cs)
  show ?case
  proof (cases k)
    case 0
    with Cons.prems(1) show ?thesis by (auto split: option.splits)
  next
    case (Suc j)
    from Cons.prems(1) have "walk w full (Path a (xs @ [c])) cs = Inr n"
      by (auto simp: child_def split: option.splits node.splits if_splits)
    from Cons.IH [OF this, of j] Cons.prems(2) Suc show ?thesis by simp
  qed
qed

lemma exists_under:
  assumes "path_exists w p" and "under d p"
  shows "nodes w d \<noteq> None"
proof -
  from assms(1) obtain n where "walk w (str_path p) (Path (absolute p) []) (parts p) = Inr n"
    by (auto simp: path_exists_def resolve_def split: sum.splits if_splits)
  from walk_found [OF this, of "length (parts d)"] assms(2)
  have "nodes w (Path (absolute p) (take (length (parts d)) (parts p))) \<noteq> None"
    by (auto simp: under_def prefix_def)
  moreover from assms(2) have "Path (absolute p) (take (length (parts d)) (parts p)) = d"
    by (cases d) (auto simp: under_def prefix_def)
  ultimately show ?thesis by simp
qed

lemma rmdir_removed: "rmdir d w = (None, w') \<Longrightarrow> nodes w' d = None"
  by (auto simp: rmdir_def remove_node_def split: option.splits node.splits list.splits)

lemma rmtree_removed: "rmtree budget d w = (None, w') \<Longrightarrow> nodes w' d = None"
  by (cases budget)
     (auto simp: rmdir_removed split: option.splits node.splits prod.splits)

lemma rmtree_clean:
  assumes "rmtree budget d w = (None, w')" and "under d p"
  shows "\<not> path_exists w' p"
  using rmtree_removed [OF assms(1)] exists_under [OF _ assms(2)] by blast

subsection \<open>The worked scenario\<close>

lemma nodes_unpacked:
  "nodes unpacked p =
     (if p = Path True [''tmp'', ''tmpk3x9''] then Some (Dir True [''__MACOSX'', ''project''])
      else if p = Path True [''tmp'', ''tmpk3x9'', ''__MACOSX''] then Some (Dir True [])
      else if p = Path True [''tmp'', ''tmpk3x9'', ''project'']
        then Some (Dir True [''main.py'', ''lib.js''])
      else if p = Path True [''tmp'', ''tmpk3x9'', ''project'', ''main.py'']
        then Some (File True ten_lines)
      else if p = Path True [''tmp'', ''tmpk3x9'', ''project'', ''lib.js'']
        then Some (File True thirty_lines)
      else if p = Path True [''tmp''] then Some (Dir True [''tmpk3x9''])
      else if p = Path True [''srv'', ''upload.zip''] then Some (File True [80, 75, 3, 4])
      else if p = Path True [''srv''] then Some (Dir True [''upload.zip''])
      else if p = Path True [] then Some (Dir True [''srv'', ''tmp''])
      else None)"
  by (simp add: unpacked_def unpack_def create_dir_def disk_def upload_zip_def tmp_dir_def
      child_def parent_def name_def list_names_def)

lemma is_file_upload: "is_file disk upload_zip = Inr True"
  by (simp add: is_file_def resolve_def str_path_def disk_def upload_zip_def child_def)

lemma resolve_unpacked:
  "resolve unpacked tmp_dir = Inr (Dir True [''__MACOSX'', ''project''])"
  "resolve unpacked (child tmp_dir ''__MACOSX'') = Inr (Dir True [])"
  "resolve unpacked (child tmp_dir ''project'') = Inr (Dir True [''main.py'', ''lib.js''])"
  "resolve unpacked (child project_dir ''main.py'') = Inr (File True ten_lines)"
  "resolve unpacked (child project_dir ''lib.js'') = Inr (File True thirty_lines)"
  by (simp_all add: resolve_def str_path_def nodes_unpacked tmp_dir_def project_dir_def child_def)

lemma detect_unpacked: "detect_project_root unpacked tmp_dir = Inr project_dir"
  by (simp add: detect_project_root_def iterdir_def resolve_unpacked is_dir_def is_file_def
      name_child)
     (simp add: child_def tmp_dir_def project_dir_def)

lemma git_scenario: "init_git_repo (scenario c j) d w = (None, w)"
  by (simp add: init_git_repo_def run_git_def scenario_def)

lemma count_byte_rep: "count_byte 10 ten_lines = 10" "count_byte 10 thirty_lines = 30"
  by code_simp+

lemma count_lines_file:
  "resolve w p = Inr (File True content) \<Longrightarrow> count_lines w p = Inr (count_byte 10 content)"
  by (simp add: count_lines_def open_rb_def chunked_count chunk_size_pos)

lemma join_main: "joinpath project_dir ''main.py'' = child project_dir ''main.py''"
  "joinpath project_dir ''lib.js'' = child project_dir ''lib.js''"
  by (simp_all add: joinpath_def components_def child_def project_dir_def)

lemma lines_scenario:
  "count_lines unpacked (joinpath project_dir ''main.py'') = Inr 10"
  "count_lines unpacked (joinpath project_dir ''lib.js'') = Inr 30"
  by (simp_all add: join_main count_lines_file [OF resolve_unpacked(4)]
      count_lines_file [OF resolve_unpacked(5)] count_byte_rep)

lemma percent_scenario: "percent_of 250 1000 = Inr (Finite 25)" "percent_of 750 1000 = Inr (Finite 75)"
  by code_simp+

lemma stats_scenario: "stats_loop unpacked project_dir 1000 decoded_report [] = Inr expected_stats"
  by (simp add: decoded_report_def expected_stats_def get_files_def get_size_def
      lines_scenario percent_scenario)

lemma execute_scenario:
  "execute_linguist (scenario c j) local_wrapper args d w =
     (if returncode c \<noteq> 0
      then Inl (RuntimeError (''github-linguist failed with code '' @ str_int (returncode c)
                  @ '': '' @ stderr c))
      else Inr (stdout c), w)"
  by (simp add: execute_linguist_def linguist_command_def scenario_def local_wrapper_def)

lemma breakdown_scenario:
  "run_linguist_breakdown (scenario classifier_ok j) local_wrapper d w = (Inr j, w)"
  by (simp add: run_linguist_breakdown_def execute_scenario classifier_ok_def)
     (simp add: scenario_def)

lemma total_scenario: "total_bytes decoded_report = 1000"
  by (simp add: total_bytes_def decoded_report_def get_size_def)

lemma scenario_sel:
  "mkdtemp (scenario c j) w = tmp_dir" "extractall (scenario c j) = unpack"
  "recursion_budget (scenario c j) = 1000"
  by (simp_all add: scenario_def)

lemma unpack_scenario: "unpack upload_zip tmp_dir (create_dir tmp_dir disk) = (None, unpacked)"
  by (simp add: unpacked_def unpack_def)

lemma prepared_scenario: "prepared (scenario c j) upload_zip disk project_dir unpacked"
  by (simp add: prepared_def is_file_upload scenario_sel unpack_scenario detect_unpacked
      git_scenario)

lemma cleanup_unpacked: "fst (rmtree (Suc (Suc (Suc k))) tmp_dir unpacked) = None"
  by (simp add: nodes_unpacked tmp_dir_def child_def remove_node_def rmdir_def parent_def
      name_def list_names_def split: prod.splits)

lemma cleanup_scenario: "fst (rmtree 1000 tmp_dir unpacked) = None"
proof -
  have "(1000::nat) = Suc (Suc (Suc 997))" by simp
  then show ?thesis by (simp only: cleanup_unpacked)
qed

subsection \<open>From the analysis to the aggregation\<close>

lemma analyze_zip_result:
  assumes "is_file w zip_path = Inr True"
      and "analyze_in E self zip_path (mkdtemp E w) (create_dir (mkdtemp E w) w) = (result, w1)"
      and "rmtree (recursion_budget E) (mkdtemp E w) w1 = (cleanup, w2)"
  shows "analyze_zip E self zip_path w = (case cleanup of None \<Rightarrow> result | Some e \<Rightarrow> Inl e, w2)"
  using assms by (simp add: analyze_zip_def Let_def split: option.splits)

lemma analyze_in_prepared:
  assumes "prepared E zip_path w project_root w2"
  shows "analyze_in E self zip_path (mkdtemp E w) (create_dir (mkdtemp E w) w)
           = collect_language_stats E self project_root w2"
  using assms
  by (auto simp: prepared_def analyze_in_def split: prod.splits option.splits sum.splits)

lemma analyze_zip_cleaned:
  assumes "prepared E zip_path w project_root w2"
      and "collect_language_stats E self project_root w2 = (result, w3)"
      and "rmtree (recursion_budget E) (mkdtemp E w) w3 = (cleanup, w4)"
  shows "analyze_zip E self zip_path w = (case cleanup of None \<Rightarrow> result | Some e \<Rightarrow> Inl e, w4)"
proof -
  from assms(1) have f: "is_file w zip_path = Inr True" by (simp add: prepared_def)
  from analyze_zip_result [OF f _ assms(3)] analyze_in_prepared [OF assms(1)] assms(2)
  show ?thesis by simp
qed

lemma analyze_zip_collect:
  assumes "prepared E zip_path w project_root w2"
      and "fst (analyze_zip E self zip_path w) = Inr stats"
  shows "fst (collect_language_stats E self project_root w2) = Inr stats"
proof -
  obtain result w3 where c: "collect_language_stats E self project_root w2 = (result, w3)"
    by (cases "collect_language_stats E self project_root w2")
  obtain cleanup w4 where r: "rmtree (recursion_budget E) (mkdtemp E w) w3 = (cleanup, w4)"
    by (cases "rmtree (recursion_budget E) (mkdtemp E w) w3")
  from analyze_zip_cleaned [OF assms(1) c r] assms(2) c show ?thesis
    by (simp split: option.splits)
qed

lemma collect_world_scenario:
  "snd (collect_language_stats (scenario c j) self d w) = w"
  by (simp add: collect_language_stats_def run_linguist_breakdown_def execute_linguist_def
      linguist_command_def scenario_def split: sum.splits prod.splits json_doc.splits)

lemma scenario_result:
  "fst (analyze_zip (scenario c j) self upload_zip disk)
     = fst (collect_language_stats (scenario c j) self project_dir unpacked)"
proof -
  have c: "collect_language_stats (scenario c j) self project_dir unpacked
      = (fst (collect_language_stats (scenario c j) self project_dir unpacked), unpacked)"
    using collect_world_scenario [of c j self project_dir unpacked]
    by (metis prod.collapse)
  have r: "rmtree (recursion_budget (scenario c j)) (mkdtemp (scenario c j) disk) unpacked
      = (None, snd (rmtree 1000 tmp_dir unpacked))"
    using cleanup_scenario by (simp add: scenario_sel) (metis prod.collapse)
  from analyze_zip_cleaned [OF prepared_scenario c r] show ?thesis by simp
qed

lemma collect_report:
  assumes "run_linguist_breakdown E self d w = (Inr (JObject bd), w')"
  shows "collect_language_stats E self d w =
           (if bd = [] then Inl (RuntimeError ''github-linguist returned empty result'')
            else stats_loop w' d (total_bytes bd) bd [], w')"
  using assms by (simp add: collect_language_stats_def truthy_def)

lemma collect_scenario:
  "collect_language_stats (scenario classifier_ok (JObject decoded_report)) local_wrapper
     project_dir unpacked = (Inr expected_stats, unpacked)"
  by (simp add: collect_report [OF breakdown_scenario] total_scenario stats_scenario)
     (simp add: decoded_report_def)

lemma end_to_end:
  "fst (analyze_zip (scenario classifier_ok (JObject decoded_report)) local_wrapper upload_zip disk)
     = Inr expected_stats"
  by (simp add: scenario_result collect_scenario)

subsection \<open>Percentages and the loop\<close>






lemma sizes_total:
  assumes "\<forall>e \<in> set bd. 0 \<le> get_size (snd e)"
  shows "1 \<le> total_bytes bd" and "\<forall>e \<in> set bd. get_size (snd e) \<le> total_bytes bd"
proof -
  let ?ss = "map (\<lambda>(language, item). get_size item) bd"
  have nonneg: "\<forall>y \<in> set ?ss. 0 \<le> y" using assms by (auto simp: case_prod_unfold)
  have s0: "0 \<le> sum_list ?ss" by (rule sum_list_nonneg) (use nonneg in blast)
  from s0 show "1 \<le> total_bytes bd" by (simp add: total_bytes_def Let_def)
  show "\<forall>e \<in> set bd. get_size (snd e) \<le> total_bytes bd"
  proof
    fix e assume "e \<in> set bd"
    then have "get_size (snd e) \<in> set ?ss" by (force simp: case_prod_unfold)
    from member_le_sum_list_int [OF this nonneg] s0 show "get_size (snd e) \<le> total_bytes bd"
      by (simp add: total_bytes_def Let_def)
  qed
qed

lemma stats_loop_result:
  assumes "distinct (map fst bd)" and "stats_loop w d T bd [] = Inr stats"
  shows "list_all2 (entry_ok w d T) bd stats"
  using stats_loop_shape [OF assms(1) _ assms(2)] by simp



lemma returned_stats_loop:
  assumes "prepared E zip_path w project_root w2"
      and "run_linguist_breakdown E self project_root w2 = (Inr (JObject bd), w3)"
      and "fst (analyze_zip E self zip_path w) = Inr stats"
  shows "bd \<noteq> []" and "stats_loop w3 project_root (total_bytes bd) bd [] = Inr stats"
  using analyze_zip_collect [OF assms(1,3)] unfolding collect_report [OF assms(2)]
  by (simp_all split: if_splits)


lemma sum_error_bound_map:
  fixes Tr eps :: rat
  assumes "list_all2 (\<lambda>a b. \<bar>g b - 100 * of_int (f a) / Tr\<bar> \<le> eps) xs ys"
  shows "\<bar>sum_list (map g ys) - 100 * of_int (sum_list (map f xs)) / Tr\<bar>
           \<le> of_nat (length ys) * eps"
  using sum_error_bound [of Tr eps "map f xs" "map g ys"] assms
  by (simp add: list_all2_map1 list_all2_map2)

lemma seven_percent: "percent_of 1 7 = Inr (Finite f14_29)"
  by code_simp


lemma seven_loop: "stats_loop w d 7 seven_report [] = Inr seven_stats"
  by (simp add: seven_report_def seven_stats_def get_files_def get_size_def seven_percent)

lemma seven_total: "total_bytes seven_report = 7"
  by (simp add: seven_report_def total_bytes_def get_size_def)

lemma seven_result:
  "fst (analyze_zip (scenario classifier_ok (JObject seven_report)) local_wrapper upload_zip disk)
     = Inr seven_stats"
  by (simp add: scenario_result collect_report [OF breakdown_scenario] seven_total seven_loop)
     (simp add: seven_report_def)

text \<open>
  Writing the defaults out changes neither the total nor the outcome of the loop: an
  absent field brings no failure of its own.
\<close>

lemma with_defaults_get:
  "get_size (with_defaults info) = get_size info" "get_files (with_defaults info) = get_files info"
  by (simp_all add: with_defaults_def get_size_def get_files_def)

lemma with_defaults_total:
  "total_bytes (map (\<lambda>(l, info). (l, with_defaults info)) bd) = total_bytes bd"
  by (simp add: total_bytes_def o_def case_prod_unfold with_defaults_get)

lemma with_defaults_loop:
  "stats_loop w d T (map (\<lambda>(l, info). (l, with_defaults info)) bd) acc = stats_loop w d T bd acc"
  by (induction bd arbitrary: acc) (auto simp: with_defaults_get split: sum.splits)

subsection \<open>The archive of nested directories\<close>

lemma nested_0: "nested 0 = tmp_dir"
  by (simp add: nested_def tmp_dir_def)

lemma nested_child: "child (nested k) ''d'' = nested (Suc k)"
  by (simp add: nested_def child_def replicate_append_same)

lemma nodes_deep_nested:
  "k \<le> 1200 \<Longrightarrow>
     nodes deep_unpacked (nested k) = Some (Dir True (if k < 1200 then [''d''] else []))"
  by (simp add: deep_unpacked_def deep_unpack_def nested_def tmp_dir_def under_def list_all_iff)

lemma nodes_deep_outside:
  "\<not> under tmp_dir p \<Longrightarrow> nodes deep_unpacked p = nodes (create_dir tmp_dir disk) p"
  by (simp add: deep_unpacked_def deep_unpack_def)

lemma deep_cleanup_fails:
  "j + k \<le> 1200 \<Longrightarrow> rmtree k (nested j) deep_unpacked = (Some RecursionError, deep_unpacked)"
proof (induction k arbitrary: j)
  case 0
  then show ?case by simp
next
  case (Suc k)
  then have j: "j < 1200" "Suc j \<le> 1200" "Suc j + k \<le> 1200" by simp_all
  from Suc.IH [OF j(3)] show ?case
    using j by (simp add: nodes_deep_nested nested_child)
qed

lemma resolve_deep:
  "resolve deep_unpacked tmp_dir = Inr (Dir True [''d''])"
  "resolve deep_unpacked (child tmp_dir ''d'') = Inr (Dir True [''d''])"
proof -
  have root: "nodes deep_unpacked (Path True []) = Some (Dir True [''srv'', ''tmp''])"
    by (simp add: nodes_deep_outside under_def tmp_dir_def create_dir_def disk_def parent_def
        upload_zip_def)
  have tmp: "nodes deep_unpacked (Path True [''tmp'']) = Some (Dir True [''tmpk3x9''])"
    by (simp add: nodes_deep_outside under_def tmp_dir_def create_dir_def disk_def parent_def
        upload_zip_def name_def list_names_def)
  have t0: "nodes deep_unpacked (Path True [''tmp'', ''tmpk3x9'']) = Some (Dir True [''d''])"
    using nodes_deep_nested [of 0] by (simp add: nested_def)
  have t1: "nodes deep_unpacked (Path True [''tmp'', ''tmpk3x9'', ''d'']) = Some (Dir True [''d''])"
    using nodes_deep_nested [of 1] by (simp add: nested_def)
  show "resolve deep_unpacked tmp_dir = Inr (Dir True [''d''])"
    by (simp add: resolve_def str_path_def tmp_dir_def child_def root tmp t0)
  show "resolve deep_unpacked (child tmp_dir ''d'') = Inr (Dir True [''d''])"
    by (simp add: resolve_def str_path_def tmp_dir_def child_def root tmp t0 t1)
qed

lemma detect_deep: "detect_project_root deep_unpacked tmp_dir = Inr (nested 1)"
  by (simp add: detect_project_root_def iterdir_def resolve_deep is_dir_def is_file_def
      name_child)
     (simp add: nested_def child_def tmp_dir_def)

lemma deep_sel:
  "mkdtemp (deep_scenario c j) w = tmp_dir" "extractall (deep_scenario c j) = deep_unpack 1200"
  "recursion_budget (deep_scenario c j) = 1000"
  "subprocess_run (deep_scenario c j) = subprocess_run (scenario c j)"
  "json_loads (deep_scenario c j) = json_loads (scenario c j)"
  "os_stat (deep_scenario c j) = os_stat (scenario c j)"
  by (simp_all add: deep_scenario_def scenario_def)

lemma run_git_deep: "run_git (deep_scenario c j) d (''git'' # args) w = (None, w)"
  by (simp add: run_git_def deep_sel) (simp add: scenario_def)

lemma git_deep: "init_git_repo (deep_scenario c j) d w = (None, w)"
  by (simp add: init_git_repo_def run_git_deep)

lemma deep_unpack_eq:
  "deep_unpack 1200 upload_zip tmp_dir (create_dir tmp_dir disk) = (None, deep_unpacked)"
  by (simp add: deep_unpacked_def deep_unpack_def)

lemma prepared_deep: "prepared (deep_scenario c j) upload_zip disk (nested 1) deep_unpacked"
  by (simp add: prepared_def is_file_upload deep_sel deep_unpack_eq detect_deep git_deep)

lemma execute_world:
  assumes "\<And>cmd cwd. snd (subprocess_run E cmd cwd w) = w"
  shows "snd (execute_linguist E self args d w) = w"
proof (cases "linguist_command E self args d w")
  case (Inl e)
  then show ?thesis by (simp add: execute_linguist_def)
next
  case (Inr cc)
  obtain cmd cwd where cc: "cc = (cmd, cwd)" by (cases cc)
  obtain r w' where r: "subprocess_run E cmd cwd w = (r, w')"
    by (cases "subprocess_run E cmd cwd w")
  with assms [of cmd cwd] have "w' = w" by simp
  with Inr cc r show ?thesis by (cases r) (simp_all add: execute_linguist_def)
qed

lemma collect_world:
  assumes "\<And>cmd cwd. snd (subprocess_run E cmd cwd w) = w"
  shows "snd (collect_language_stats E self d w) = w"
proof -
  obtain x w' where x: "execute_linguist E self [''--breakdown'', ''--json'', ''.''] d w = (x, w')"
    by (cases "execute_linguist E self [''--breakdown'', ''--json'', ''.''] d w")
  with execute_world [OF assms, of self "[''--breakdown'', ''--json'', ''.'']" d]
  have "w' = w" by simp
  with x show ?thesis
    by (cases x)
       (simp_all add: collect_language_stats_def run_linguist_breakdown_def
          split: sum.splits json_doc.splits)
qed

lemma collect_world_deep:
  "snd (collect_language_stats (deep_scenario c j) self d w) = w"
  by (rule collect_world) (simp add: deep_sel, simp add: scenario_def)

lemma deep_result:
  "analyze_zip (deep_scenario c j) self upload_zip disk = (Inl RecursionError, deep_unpacked)"
proof -
  have c: "collect_language_stats (deep_scenario c j) self (nested 1) deep_unpacked
      = (fst (collect_language_stats (deep_scenario c j) self (nested 1) deep_unpacked),
         deep_unpacked)"
    using collect_world_deep [of c j self "nested 1" deep_unpacked] by (metis prod.collapse)
  have r: "rmtree (recursion_budget (deep_scenario c j)) (mkdtemp (deep_scenario c j) disk)
      deep_unpacked = (Some RecursionError, deep_unpacked)"
    using deep_cleanup_fails [of 0 1000] by (simp add: deep_sel nested_0)
  from analyze_zip_cleaned [OF prepared_deep c r] show ?thesis by simp
qed

lemma deep_remains: "path_exists deep_unpacked tmp_dir"
  by (simp add: path_exists_def resolve_deep)

subsection \<open>Entries of a listed directory\<close>

text \<open>
  One more component below a directory that the walk has reached: the lookup of an entry
  of a listed directory fails only for a missing entry, an unresolvable link or a name
  that is too long.
\<close>

lemma walk_snoc:
  assumes "walk w full (Path a xs) cs = Inr (Dir True ns)"
  shows "walk w full' (Path a xs) (cs @ [c]) =
           (if 255 < length c then Inl (OSError ENAMETOOLONG)
            else case nodes w (Path a (xs @ cs @ [c])) of
                   None \<Rightarrow> Inl (FileNotFoundError full')
                 | Some SymlinkLoop \<Rightarrow> Inl (OSError ELOOP)
                 | Some n \<Rightarrow> Inr n)"
  using assms
proof (induction cs arbitrary: xs)
  case Nil
  then show ?case by (auto simp: child_def split: option.splits node.splits)
next
  case (Cons d ds)
  from Cons.prems obtain ms where
    d: "nodes w (Path a xs) = Some (Dir True ms)" "\<not> 255 < length d"
       "walk w full (Path a (xs @ [d])) ds = Inr (Dir True ns)"
    by (auto simp: child_def split: option.splits node.splits if_splits)
  from Cons.IH [OF d(3)] d(1,2) show ?case by (simp add: child_def)
qed

lemma listed_entry_answers:
  assumes "iterdir w d = Inr ps" and "length n \<le> 255"
      and "length (str_path (child d n)) \<le> 4095"
  shows "(\<exists>b. is_dir w (child d n) = Inr b) \<and> (\<exists>b. is_file w (child d n) = Inr b)"
proof -
  from assms(1) obtain ns where r: "resolve w d = Inr (Dir True ns)"
    by (auto simp: iterdir_def split: sum.splits node.splits if_splits)
  then have wk: "walk w (str_path d) (Path (absolute d) []) (parts d) = Inr (Dir True ns)"
    by (simp add: resolve_def split: if_splits)
  from walk_snoc [OF wk, of "str_path (child d n)" n] assms(2)
  have "walk w (str_path (child d n)) (Path (absolute d) []) (parts d @ [n]) =
      (case nodes w (Path (absolute d) (parts d @ [n])) of
         None \<Rightarrow> Inl (FileNotFoundError (str_path (child d n)))
       | Some SymlinkLoop \<Rightarrow> Inl (OSError ELOOP)
       | Some n \<Rightarrow> Inr n)"
    by simp
  with assms(3) show ?thesis
    by (auto simp: is_dir_def is_file_def resolve_def child_def ignore_error_def
        split: option.splits node.splits)
qed

section \<open>The claims\<close>

text \<open>
  Claim C1. When the extraction directory can be listed and the kind of each entry can
  be asked, then, with the entries named \<open>__MACOSX\<close> left out, the project root is the
  single subdirectory when there is exactly one subdirectory and no regular file at the
  top level, and the extraction directory itself in every other case.
\<close>

theorem detect_project_root_rule:
  assumes "iterdir w extract_dir = Inr (map (child extract_dir) ns)" and "distinct ns"
      and "\<forall>n \<in> set ns. n \<noteq> ''__MACOSX'' \<longrightarrow>
             (\<exists>b. is_dir w (child extract_dir n) = Inr b)
             \<and> (\<exists>b. is_file w (child extract_dir n) = Inr b)"
  shows "detect_project_root w extract_dir =
    (let subdirs = {n \<in> set ns. n \<noteq> ''__MACOSX'' \<and> is_dir w (child extract_dir n) = Inr True};
         files = {n \<in> set ns. n \<noteq> ''__MACOSX'' \<and> is_file w (child extract_dir n) = Inr True}
     in Inr (if card subdirs = 1 \<and> files = {} then child extract_dir (the_elem subdirs)
             else extract_dir))"
proof -
  let ?vis = "\<lambda>n. n \<noteq> ''__MACOSX''"
  let ?D = "filter (\<lambda>n. ?vis n \<and> is_dir w (child extract_dir n) = Inr True) ns"
  let ?F = "filter (\<lambda>n. ?vis n \<and> is_file w (child extract_dir n) = Inr True) ns"
  let ?entries = "map (child extract_dir) (filter ?vis ns)"
  have entries: "filter (\<lambda>p. name p \<noteq> ''__MACOSX'') (map (child extract_dir) ns) = ?entries"
    by (simp add: filter_map o_def name_child)
  have "\<forall>p \<in> set ?entries. \<exists>b. is_dir w p = Inr b" using assms(3) by auto
  from filter_err_ok [OF this]
  have subdirs: "filter_err (is_dir w) ?entries = Inr (map (child extract_dir) ?D)"
    by (simp add: filter_map o_def conj_commute)
  have "\<forall>p \<in> set ?entries. \<exists>b. is_file w p = Inr b" using assms(3) by auto
  from filter_err_ok [OF this]
  have files: "filter_err (is_file w) ?entries = Inr (map (child extract_dir) ?F)"
    by (simp add: filter_map o_def conj_commute)
  have code: "detect_project_root w extract_dir =
      Inr (if length ?D = 1 \<and> ?F = [] then child extract_dir (?D ! 0) else extract_dir)"
    unfolding detect_project_root_def assms(1)
    by (simp only: sum.case Let_def entries subdirs files) (auto simp: nth_map)
  have setD: "{n \<in> set ns. ?vis n \<and> is_dir w (child extract_dir n) = Inr True} = set ?D" by auto
  have "distinct ?D" using assms(2) by simp
  then have card: "card {n \<in> set ns. ?vis n \<and> is_dir w (child extract_dir n) = Inr True}
      = length ?D"
    unfolding setD by (rule distinct_card)
  have emp: "({n \<in> set ns. ?vis n \<and> is_file w (child extract_dir n) = Inr True} = {}) = (?F = [])"
    by (auto simp: filter_empty_conv)
  have elem: "the_elem {n \<in> set ns. ?vis n \<and> is_dir w (child extract_dir n) = Inr True} = ?D ! 0"
    if "length ?D = 1"
  proof -
    from that obtain d where "?D = [d]" by (cases ?D) (simp_all del: filter.simps)
    then show ?thesis unfolding setD by simp
  qed
  show ?thesis
    unfolding code Let_def card emp using elem by (simp del: One_nat_def)
qed

lemma kinds_unpacked:
  "is_dir unpacked (child tmp_dir ''project'') = Inr True"
  "is_file unpacked (child tmp_dir ''project'') = Inr False"
  "is_dir unpacked (child tmp_dir ''__MACOSX'') = Inr True"
  "iterdir unpacked tmp_dir = Inr (map (child tmp_dir) [''__MACOSX'', ''project''])"
  by (simp_all add: is_dir_def is_file_def iterdir_def resolve_unpacked)

theorem detect_project_root_rule_witness:
  "iterdir unpacked tmp_dir = Inr (map (child tmp_dir) [''__MACOSX'', ''project''])
     \<and> distinct [''__MACOSX'', ''project'']
     \<and> is_dir unpacked (child tmp_dir ''project'') = Inr True
     \<and> is_file unpacked (child tmp_dir ''project'') = Inr False
     \<and> is_dir unpacked (child tmp_dir ''__MACOSX'') = Inr True
     \<and> detect_project_root unpacked tmp_dir = Inr (child tmp_dir ''project'')"
proof -
  have d: "distinct [''__MACOSX'', ''project'']" by simp
  have q: "\<forall>n \<in> set [''__MACOSX'', ''project'']. n \<noteq> ''__MACOSX'' \<longrightarrow>
             (\<exists>b. is_dir unpacked (child tmp_dir n) = Inr b)
             \<and> (\<exists>b. is_file unpacked (child tmp_dir n) = Inr b)"
    by (auto simp: kinds_unpacked)
  have dirs: "{n \<in> set [''__MACOSX'', ''project''].
                n \<noteq> ''__MACOSX'' \<and> is_dir unpacked (child tmp_dir n) = Inr True} = {''project''}"
    by (auto simp: kinds_unpacked)
  have files: "{n \<in> set [''__MACOSX'', ''project''].
                n \<noteq> ''__MACOSX'' \<and> is_file unpacked (child tmp_dir n) = Inr True} = {}"
    by (auto simp: kinds_unpacked)
  from detect_project_root_rule [OF kinds_unpacked(4) d q]
  have "detect_project_root unpacked tmp_dir = Inr (child tmp_dir ''project'')"
    unfolding dirs files by simp
  with kinds_unpacked d show ?thesis by simp
qed



text \<open>
  Claim C3, as amended. The line count of a path is the number of newline bytes (byte
  10) of the file's content when \<open>open\<close> finds a readable regular file; it is zero, with no
  error, when \<open>open\<close> fails with \<open>FileNotFoundError\<close>, \<open>IsADirectoryError\<close> or
  \<open>PermissionError\<close>; any other failure of \<open>open\<close> (a path below a regular file, an
  unresolvable link, an over-long name, a NUL byte) is raised. The count by chunks is the
  same for every positive chunk size as for the one used, 1 MiB, hence it does not depend
  on whether the file's size is a multiple of the chunk size.
\<close>

theorem count_lines_newlines:
  "(resolve w p = Inr (File True content) \<longrightarrow>
      count_lines w p = Inr (int (length (filter (\<lambda>b. b = 10) content))))
   \<and> (resolve w p = Inl (FileNotFoundError m) \<or> resolve w p = Inr (Dir accessible ns)
        \<or> resolve w p = Inr (File False content) \<or> resolve w p = Inl PermissionError \<longrightarrow>
      count_lines w p = Inr 0)
   \<and> (resolve w p = Inl NotADirectoryError \<longrightarrow> count_lines w p = Inl NotADirectoryError)
   \<and> (resolve w p = Inl (OSError en) \<longrightarrow> count_lines w p = Inl (OSError en))
   \<and> (resolve w p = Inl ValueError \<longrightarrow> count_lines w p = Inl ValueError)
   \<and> sum_list (map (count_byte 10) (read_chunks (Suc n) bytes))
       = sum_list (map (count_byte 10) (read_chunks chunk_size bytes))
   \<and> chunk_size = 2 ^ 20"
proof (intro conjI impI)
  show "sum_list (map (count_byte 10) (read_chunks (Suc n) bytes))
       = sum_list (map (count_byte 10) (read_chunks chunk_size bytes))"
    by (simp add: chunked_count chunk_size_pos)
  show "chunk_size = 2 ^ 20" by (simp add: chunk_size_def)
qed (auto simp: count_lines_def open_rb_def chunked_count chunk_size_pos count_byte_def)

lemma resolve_below_file:
  "resolve unpacked (Path True [''tmp'', ''tmpk3x9'', ''project'', ''main.py'', ''x''])
     = Inl NotADirectoryError"
  by (simp add: resolve_def str_path_def nodes_unpacked child_def)

lemma resolve_absent:
  "resolve unpacked (Path True [''tmp'', ''tmpk3x9'', ''project'', ''gone.py''])
     = Inl (FileNotFoundError ''/tmp/tmpk3x9/project/gone.py'')"
  by (simp add: resolve_def str_path_def nodes_unpacked child_def)

theorem count_lines_newlines_witness:
  "resolve unpacked (child project_dir ''main.py'') = Inr (File True ten_lines)
   \<and> count_lines unpacked (child project_dir ''main.py'') = Inr 10
   \<and> resolve unpacked (Path True [''tmp'', ''tmpk3x9'', ''project'', ''gone.py''])
        = Inl (FileNotFoundError ''/tmp/tmpk3x9/project/gone.py'')
   \<and> count_lines unpacked (Path True [''tmp'', ''tmpk3x9'', ''project'', ''gone.py'']) = Inr 0
   \<and> resolve unpacked (Path True [''tmp'', ''tmpk3x9'', ''project'', ''main.py'', ''x''])
        = Inl NotADirectoryError
   \<and> count_lines unpacked (Path True [''tmp'', ''tmpk3x9'', ''project'', ''main.py'', ''x''])
        = Inl NotADirectoryError"
proof -
  have ten: "int (length (filter (\<lambda>b. b = 10) ten_lines)) = 10"
    using count_byte_rep(1) by (simp add: count_byte_def)
  from count_lines_newlines [of unpacked "child project_dir ''main.py''" ten_lines]
       count_lines_newlines [of unpacked "Path True [''tmp'', ''tmpk3x9'', ''project'', ''gone.py'']"
         _ "''/tmp/tmpk3x9/project/gone.py''"]
       count_lines_newlines [of unpacked
         "Path True [''tmp'', ''tmpk3x9'', ''project'', ''main.py'', ''x'']"]
       resolve_unpacked(4) resolve_absent resolve_below_file ten
  show ?thesis by simp
qed

text \<open>
  Claim C3 as it is stated fails for a path below a regular file: \<open>main.py/x\<close> is missing,
  and counting its lines raises \<open>NotADirectoryError\<close>.
\<close>

theorem count_lines_missing_counterexample:
  "joinpath project_dir ''main.py/x''
     = Path True [''tmp'', ''tmpk3x9'', ''project'', ''main.py'', ''x'']
   \<and> nodes unpacked (Path True [''tmp'', ''tmpk3x9'', ''project'', ''main.py'', ''x'']) = None
   \<and> \<not> path_exists unpacked (Path True [''tmp'', ''tmpk3x9'', ''project'', ''main.py'', ''x''])
   \<and> count_lines unpacked (Path True [''tmp'', ''tmpk3x9'', ''project'', ''main.py'', ''x''])
        = Inl NotADirectoryError"
  by (simp add: joinpath_def components_def project_dir_def nodes_unpacked path_exists_def
      resolve_below_file count_lines_def open_rb_def)

text \<open>
  Claim C4. When the classifier's output decodes to the report \<open>bd\<close> and the analysis
  returns a mapping, the languages of that mapping are exactly the keys of \<open>bd\<close> (and
  \<open>bd\<close> is not empty).
\<close>

theorem result_languages:
  assumes "prepared E zip_path w project_root w2"
      and "run_linguist_breakdown E self project_root w2 = (Inr (JObject bd), w3)"
      and "fst (analyze_zip E self zip_path w) = Inr stats"
  shows "set (map fst stats) = set (map fst bd) \<and> bd \<noteq> []"
proof -
  note returned_stats_loop [OF assms]
  with stats_loop_keys [of w3 project_root "total_bytes bd" bd "[]" stats] show ?thesis
    by simp
qed

theorem result_languages_witness:
  "prepared (scenario classifier_ok (JObject decoded_report)) upload_zip disk project_dir unpacked
   \<and> run_linguist_breakdown (scenario classifier_ok (JObject decoded_report)) local_wrapper
        project_dir unpacked = (Inr (JObject decoded_report), unpacked)
   \<and> fst (analyze_zip (scenario classifier_ok (JObject decoded_report)) local_wrapper
            upload_zip disk) = Inr expected_stats
   \<and> set (map fst expected_stats) = {''Python'', ''JavaScript''}"
  using result_languages [OF prepared_scenario breakdown_scenario end_to_end]
    prepared_scenario [of classifier_ok "JObject decoded_report"]
    breakdown_scenario [of "JObject decoded_report" project_dir unpacked] end_to_end
  by (simp add: decoded_report_def insert_commute)

text \<open>
  Claim C5, as amended. For a report with non-negative sizes, at least one of them not
  zero, and a total below \<open>2 ^ 1000\<close>, every percentage of the result is a finite float
  between 0 and 100, and the sum of the percentages differs from 100 by at most
  \<open>0.005 + 10 ^ -12\<close> per language: half a unit of the second decimal for each rounded
  percentage, and the rounding error of the float operations.
\<close>

theorem percentages_bounded:
  assumes "prepared E zip_path w project_root w2"
      and "run_linguist_breakdown E self project_root w2 = (Inr (JObject bd), w3)"
      and "fst (analyze_zip E self zip_path w) = Inr stats"
      and "distinct (map fst bd)"
      and "\<forall>e \<in> set bd. 0 \<le> get_size (snd e)"
      and "\<exists>e \<in> set bd. get_size (snd e) \<noteq> 0"
      and "total_bytes bd < 2 ^ 1000"
  shows "(\<forall>e \<in> set stats. \<exists>r. percent (snd e) = Finite r \<and> 0 \<le> r \<and> r \<le> 100)
       \<and> length stats = length bd
       \<and> \<bar>percent_sum stats - 100\<bar> \<le> of_nat (length bd) * (1 / 200 + 1 / 10 ^ 12)"
proof -
  let ?T = "total_bytes bd"
  let ?eps = "1 / 200 + 1 / 10 ^ 12 :: rat"
  let ?val = "\<lambda>(language, st). case percent st of Finite r \<Rightarrow> r | _ \<Rightarrow> 0"
  let ?size = "\<lambda>(l, item). get_size item"
  note tot = sizes_total [OF assms(5)]
  note loop = returned_stats_loop(2) [OF assms(1-3)]
  note shape = stats_loop_result [OF assms(4) loop]
  have small: "600 * u64 \<le> 1 / 10 ^ 12" by (simp add: u64_def)
  have each: "\<exists>r. percent (snd b) = Finite r \<and> 0 \<le> r \<and> r \<le> 100
      \<and> \<bar>r - 100 * of_int (get_size (snd a)) / of_int ?T\<bar> \<le> ?eps"
    if "a \<in> set bd" "entry_ok w3 project_root ?T a b" for a b
  proof -
    from that(1) assms(5) tot(2) have "0 \<le> get_size (snd a)" "get_size (snd a) \<le> ?T"
      by auto
    from percent_of_accuracy [OF this tot(1) assms(7)] that(2) small show ?thesis
      by (auto simp: entry_ok_def)
  qed
  have all2: "list_all2 (\<lambda>a b. \<exists>r. percent (snd b) = Finite r \<and> 0 \<le> r \<and> r \<le> 100
      \<and> \<bar>r - 100 * of_int (get_size (snd a)) / of_int ?T\<bar> \<le> ?eps) bd stats"
    using shape each by (auto simp: list_all2_conv_all_nth)
  have len: "length stats = length bd" using shape by (simp add: list_all2_lengthD)
  have range: "\<forall>e \<in> set stats. \<exists>r. percent (snd e) = Finite r \<and> 0 \<le> r \<and> r \<le> 100"
  proof
    fix e assume "e \<in> set stats"
    then obtain i where i: "i < length stats" "stats ! i = e" by (auto simp: in_set_conv_nth)
    from list_all2_nthD2 [OF all2 i(1)] i(2)
    show "\<exists>r. percent (snd e) = Finite r \<and> 0 \<le> r \<and> r \<le> 100" by blast
  qed
  have "list_all2 (\<lambda>a b. \<bar>?val b - 100 * of_int (?size a) / of_int ?T\<bar> \<le> ?eps) bd stats"
    using all2 by (rule list_all2_mono) (auto simp: case_prod_unfold)
  from sum_error_bound_map [OF this]
  have "\<bar>percent_sum stats - 100 * of_int (sum_list (map ?size bd)) / of_int ?T\<bar>
      \<le> of_nat (length stats) * ?eps"
    by (simp add: percent_sum_def)
  moreover have "sum_list (map ?size bd) = ?T"
  proof -
    have nonneg: "\<forall>y \<in> set (map ?size bd). 0 \<le> y"
      using assms(5) by (auto simp: case_prod_unfold)
    from assms(6) obtain e where e: "e \<in> set bd" "get_size (snd e) \<noteq> 0" by blast
    then have "get_size (snd e) \<in> set (map ?size bd)" by (force simp: case_prod_unfold)
    from member_le_sum_list_int [OF this nonneg] e assms(5)
    have "sum_list (map ?size bd) \<noteq> 0" by force
    then show ?thesis by (simp add: total_bytes_def Let_def)
  qed
  moreover have "100 * (of_int ?T :: rat) / of_int ?T = 100" using tot(1) by simp
  ultimately have "\<bar>percent_sum stats - 100\<bar> \<le> of_nat (length bd) * ?eps"
    by (simp add: len)
  with range len show ?thesis by simp
qed

theorem percentages_bounded_witness:
  "prepared (scenario classifier_ok (JObject decoded_report)) upload_zip disk project_dir unpacked
   \<and> run_linguist_breakdown (scenario classifier_ok (JObject decoded_report)) local_wrapper
        project_dir unpacked = (Inr (JObject decoded_report), unpacked)
   \<and> fst (analyze_zip (scenario classifier_ok (JObject decoded_report)) local_wrapper
            upload_zip disk) = Inr expected_stats
   \<and> distinct (map fst decoded_report)
   \<and> list_all (\<lambda>e. 0 \<le> get_size (snd e)) decoded_report
   \<and> list_ex (\<lambda>e. get_size (snd e) \<noteq> 0) decoded_report
   \<and> total_bytes decoded_report < 2 ^ 1000
   \<and> list_all (\<lambda>e. \<exists>r. percent (snd e) = Finite r \<and> 0 \<le> r \<and> r \<le> 100) expected_stats
   \<and> percent_sum expected_stats = 100
   \<and> \<bar>percent_sum expected_stats - 100\<bar> \<le> 2 * (1 / 200 + 1 / 10 ^ 12)"
proof -
  have d: "distinct (map fst decoded_report)" by (simp add: decoded_report_def)
  have n: "\<forall>e \<in> set decoded_report. 0 \<le> get_size (snd e)"
    by (simp add: decoded_report_def get_size_def)
  have z: "\<exists>e \<in> set decoded_report. get_size (snd e) \<noteq> 0"
    by (simp add: decoded_report_def get_size_def)
  have t: "total_bytes decoded_report < 2 ^ 1000" by (simp add: total_scenario)
  have s: "percent_sum expected_stats = 100" by (simp add: percent_sum_def expected_stats_def)
  have l: "length decoded_report = 2" by (simp add: decoded_report_def)
  from percentages_bounded [OF prepared_scenario breakdown_scenario end_to_end d n z t]
  have "(\<forall>e \<in> set expected_stats. \<exists>r. percent (snd e) = Finite r \<and> 0 \<le> r \<and> r \<le> 100)
      \<and> \<bar>percent_sum expected_stats - 100\<bar> \<le> 2 * (1 / 200 + 1 / 10 ^ 12)"
    unfolding l by simp
  with prepared_scenario [of classifier_ok "JObject decoded_report"]
    breakdown_scenario [of "JObject decoded_report" project_dir unpacked] end_to_end d n z t s
  show ?thesis by (simp add: list_all_iff list_ex_iff)
qed

text \<open>
  Claim C5 as it is stated fails for seven languages of one byte each: every percentage
  is the float nearest to 14.29 and their sum is 100.03 (less \<open>10 ^ -14\<close>), three units
  of the second decimal away from 100.
\<close>

theorem percentages_sum_counterexample:
  "fst (analyze_zip (scenario classifier_ok (JObject seven_report)) local_wrapper upload_zip disk)
     = Inr seven_stats
   \<and> percent_sum seven_stats = 7 * f14_29
   \<and> 29 / 1000 < \<bar>percent_sum seven_stats - 100\<bar>"
proof -
  note seven_result
  moreover have "percent_sum seven_stats = 7 * f14_29"
    by (simp add: percent_sum_def seven_stats_def)
  moreover have "29 / 1000 < \<bar>7 * f14_29 - 100\<bar>" by (simp add: f14_29_def)
  ultimately show ?thesis by simp
qed






text \<open>
  Claim C7, as amended. In either execution mode, when the pipeline reaches the classifier
  and the classifier process exits with a non-zero code, the analysis fails: with a
  \<open>RuntimeError\<close> whose message holds that code in decimal and the captured standard
  error when the removal of the temporary directory succeeds, and with the error of the
  removal otherwise.
\<close>

theorem classifier_failure:
  assumes "prepared E zip_path w project_root w2"
      and "linguist_command E self [''--breakdown'', ''--json'', ''.''] project_root w2
             = Inr (cmd, cwd)"
      and "subprocess_run E cmd cwd w2 = (Inr result, w3)"
      and "returncode result \<noteq> 0"
      and "rmtree (recursion_budget E) (mkdtemp E w) w3 = (cleanup, w4)"
  shows "fst (analyze_zip E self zip_path w)
           = Inl (case cleanup of
                    None \<Rightarrow> RuntimeError (''github-linguist failed with code ''
                              @ str_int (returncode result) @ '': '' @ stderr result)
                  | Some e \<Rightarrow> e)"
proof -
  have "execute_linguist E self [''--breakdown'', ''--json'', ''.''] project_root w2
      = (Inl (RuntimeError (''github-linguist failed with code ''
                @ str_int (returncode result) @ '': '' @ stderr result)), w3)"
    using assms(2-4) by (simp add: execute_linguist_def)
  then have "collect_language_stats E self project_root w2
      = (Inl (RuntimeError (''github-linguist failed with code ''
                @ str_int (returncode result) @ '': '' @ stderr result)), w3)"
    by (simp add: collect_language_stats_def run_linguist_breakdown_def)
  from analyze_zip_cleaned [OF assms(1) this assms(5)] show ?thesis
    by (simp split: option.splits)
qed

theorem classifier_failure_witness:
  "prepared (scenario classifier_failed (JObject decoded_report)) upload_zip disk project_dir
      unpacked
   \<and> returncode classifier_failed \<noteq> 0
   \<and> linguist_command (scenario classifier_failed (JObject decoded_report)) local_wrapper
         [''--breakdown'', ''--json'', ''.''] project_dir unpacked
       = Inr ([''github-linguist'', ''--breakdown'', ''--json'', ''.''], Some project_dir)
   \<and> linguist_command (scenario classifier_failed (JObject decoded_report)) docker_wrapper
         [''--breakdown'', ''--json'', ''.''] project_dir unpacked
       = Inr ([''docker'', ''run'', ''--rm'', ''--user'', ''1000:1000'',
                ''-v'', ''/tmp/tmpk3x9/project:/repo:ro'', ''-w'', ''/repo'', ''linguist'',
                ''--breakdown'', ''--json'', ''.''], None)
   \<and> fst (rmtree 1000 tmp_dir unpacked) = None
   \<and> fst (analyze_zip (scenario classifier_failed (JObject decoded_report)) local_wrapper
            upload_zip disk)
       = Inl (RuntimeError ''github-linguist failed with code 2: no such repo'')
   \<and> fst (analyze_zip (scenario classifier_failed (JObject decoded_report)) docker_wrapper
            upload_zip disk)
       = Inl (RuntimeError ''github-linguist failed with code 2: no such repo'')"
proof -
  let ?E = "scenario classifier_failed (JObject decoded_report)"
  have rc: "returncode classifier_failed \<noteq> 0" by (simp add: classifier_failed_def)
  have digits: "str_nat 1000 = ''1000''" "str_int 2 = ''2''"
    by (simp_all add: str_int_def str_nat.simps digit_char_def)
  have local: "linguist_command ?E local_wrapper [''--breakdown'', ''--json'', ''.'']
      project_dir unpacked
      = Inr ([''github-linguist'', ''--breakdown'', ''--json'', ''.''], Some project_dir)"
    by (simp add: linguist_command_def local_wrapper_def)
  have docker: "linguist_command ?E docker_wrapper [''--breakdown'', ''--json'', ''.'']
      project_dir unpacked
      = Inr ([''docker'', ''run'', ''--rm'', ''--user'', ''1000:1000'',
               ''-v'', ''/tmp/tmpk3x9/project:/repo:ro'', ''-w'', ''/repo'', ''linguist'',
               ''--breakdown'', ''--json'', ''.''], None)"
    by (simp add: linguist_command_def docker_wrapper_def scenario_def digits str_path_def
        project_dir_def)
  have run1: "subprocess_run ?E [''github-linguist'', ''--breakdown'', ''--json'', ''.'']
      (Some project_dir) unpacked = (Inr classifier_failed, unpacked)"
    by (simp add: scenario_def)
  have run2: "subprocess_run ?E [''docker'', ''run'', ''--rm'', ''--user'', ''1000:1000'',
               ''-v'', ''/tmp/tmpk3x9/project:/repo:ro'', ''-w'', ''/repo'', ''linguist'',
               ''--breakdown'', ''--json'', ''.''] None unpacked = (Inr classifier_failed, unpacked)"
    by (simp add: scenario_def)
  have r: "rmtree (recursion_budget ?E) (mkdtemp ?E disk) unpacked
      = (None, snd (rmtree 1000 tmp_dir unpacked))"
    using cleanup_scenario by (simp add: scenario_sel) (metis prod.collapse)
  from classifier_failure [OF prepared_scenario local run1 rc r]
       classifier_failure [OF prepared_scenario docker run2 rc r]
       prepared_scenario rc local docker cleanup_scenario
  show ?thesis by (simp add: classifier_failed_def digits)
qed

text \<open>
  Claim C7 as it is stated fails for the archive of 1200 nested directories: the
  classifier exits with code 2, and the analysis fails with the \<open>RecursionError\<close> of the
  removal of the temporary directory, whose message holds neither the code nor the
  standard error.
\<close>

theorem classifier_failure_counterexample:
  "prepared (deep_scenario classifier_failed (JObject decoded_report)) upload_zip disk (nested 1)
      deep_unpacked
   \<and> linguist_command (deep_scenario classifier_failed (JObject decoded_report)) local_wrapper
         [''--breakdown'', ''--json'', ''.''] (nested 1) deep_unpacked
       = Inr ([''github-linguist'', ''--breakdown'', ''--json'', ''.''], Some (nested 1))
   \<and> subprocess_run (deep_scenario classifier_failed (JObject decoded_report))
         [''github-linguist'', ''--breakdown'', ''--json'', ''.''] (Some (nested 1)) deep_unpacked
       = (Inr classifier_failed, deep_unpacked)
   \<and> returncode classifier_failed = 2
   \<and> stderr classifier_failed = ''no such repo''
   \<and> fst (analyze_zip (deep_scenario classifier_failed (JObject decoded_report)) local_wrapper
            upload_zip disk) = Inl RecursionError"
proof (intro conjI)
  show "subprocess_run (deep_scenario classifier_failed (JObject decoded_report))
         [''github-linguist'', ''--breakdown'', ''--json'', ''.''] (Some (nested 1)) deep_unpacked
       = (Inr classifier_failed, deep_unpacked)"
    by (simp add: deep_sel) (simp add: scenario_def)
qed (simp_all only: prepared_deep deep_result fst_conv,
     simp_all add: linguist_command_def local_wrapper_def classifier_failed_def)

text \<open>
  Claim C8, as amended. When the pipeline reaches the classifier, the classifier exits
  with code zero and the removal of the temporary directory succeeds, the analysis fails
  with the decoder's error if the output cannot be decoded, and with \<open>RuntimeError\<close>
  "github-linguist returned empty result" if it decodes to the empty mapping: an empty
  mapping is never returned as a result. When the removal fails, the analysis fails with
  the error of the removal in both cases.
\<close>

theorem report_validation:
  assumes "prepared E zip_path w project_root w2"
      and "execute_linguist E self [''--breakdown'', ''--json'', ''.''] project_root w2
             = (Inr output, w3)"
      and "rmtree (recursion_budget E) (mkdtemp E w) w3 = (cleanup, w4)"
  shows "(json_loads E output = Inl e \<longrightarrow>
            fst (analyze_zip E self zip_path w) = Inl (case cleanup of None \<Rightarrow> e | Some c \<Rightarrow> c))
       \<and> (json_loads E output = Inr (JObject []) \<longrightarrow>
            fst (analyze_zip E self zip_path w)
              = Inl (case cleanup of
                       None \<Rightarrow> RuntimeError ''github-linguist returned empty result''
                     | Some c \<Rightarrow> c))"
proof (intro conjI impI)
  assume "json_loads E output = Inl e"
  then have "collect_language_stats E self project_root w2 = (Inl e, w3)"
    using assms(2) by (simp add: collect_language_stats_def run_linguist_breakdown_def)
  from analyze_zip_cleaned [OF assms(1) this assms(3)]
  show "fst (analyze_zip E self zip_path w) = Inl (case cleanup of None \<Rightarrow> e | Some c \<Rightarrow> c)"
    by (simp split: option.splits)
next
  assume "json_loads E output = Inr (JObject [])"
  then have "collect_language_stats E self project_root w2
      = (Inl (RuntimeError ''github-linguist returned empty result''), w3)"
    using assms(2)
    by (simp add: collect_language_stats_def run_linguist_breakdown_def truthy_def)
  from analyze_zip_cleaned [OF assms(1) this assms(3)]
  show "fst (analyze_zip E self zip_path w)
      = Inl (case cleanup of None \<Rightarrow> RuntimeError ''github-linguist returned empty result''
             | Some c \<Rightarrow> c)"
    by (simp split: option.splits)
qed

theorem report_validation_witness:
  "prepared (scenario classifier_garbled (JObject decoded_report)) upload_zip disk project_dir
      unpacked
   \<and> execute_linguist (scenario classifier_garbled (JObject decoded_report)) local_wrapper
        [''--breakdown'', ''--json'', ''.''] project_dir unpacked = (Inr ''<html>'', unpacked)
   \<and> json_loads (scenario classifier_garbled (JObject decoded_report)) ''<html>''
        = Inl JSONDecodeError
   \<and> fst (rmtree 1000 tmp_dir unpacked) = None
   \<and> fst (analyze_zip (scenario classifier_garbled (JObject decoded_report)) local_wrapper
            upload_zip disk) = Inl JSONDecodeError
   \<and> prepared (scenario classifier_ok (JObject [])) upload_zip disk project_dir unpacked
   \<and> execute_linguist (scenario classifier_ok (JObject [])) local_wrapper
        [''--breakdown'', ''--json'', ''.''] project_dir unpacked = (Inr report_text, unpacked)
   \<and> json_loads (scenario classifier_ok (JObject [])) report_text = Inr (JObject [])
   \<and> fst (analyze_zip (scenario classifier_ok (JObject [])) local_wrapper upload_zip disk)
        = Inl (RuntimeError ''github-linguist returned empty result'')"
proof -
  have x1: "execute_linguist (scenario classifier_garbled (JObject decoded_report)) local_wrapper
        [''--breakdown'', ''--json'', ''.''] project_dir unpacked = (Inr ''<html>'', unpacked)"
    by (simp add: execute_scenario classifier_garbled_def)
  have j1: "json_loads (scenario classifier_garbled (JObject decoded_report)) ''<html>''
        = Inl JSONDecodeError"
    by (simp add: scenario_def report_text_def)
  have x2: "execute_linguist (scenario classifier_ok (JObject [])) local_wrapper
        [''--breakdown'', ''--json'', ''.''] project_dir unpacked = (Inr report_text, unpacked)"
    by (simp add: execute_scenario classifier_ok_def)
  have j2: "json_loads (scenario classifier_ok (JObject [])) report_text = Inr (JObject [])"
    by (simp add: scenario_def)
  have r: "rmtree (recursion_budget (scenario c j)) (mkdtemp (scenario c j) disk) unpacked
      = (None, snd (rmtree 1000 tmp_dir unpacked))" for c j
    using cleanup_scenario by (simp add: scenario_sel) (metis prod.collapse)
  from report_validation [OF prepared_scenario x1 r, of JSONDecodeError]
       report_validation [OF prepared_scenario x2 r, of JSONDecodeError]
       prepared_scenario x1 j1 x2 j2 cleanup_scenario
  show ?thesis by simp
qed

text \<open>
  Claim C8 as it is stated fails for the archive of 1200 nested directories: the
  classifier's output cannot be decoded, and the analysis fails with the \<open>RecursionError\<close>
  of the removal of the temporary directory, not with the decoder's error.
\<close>

theorem report_validation_counterexample:
  "prepared (deep_scenario classifier_garbled (JObject decoded_report)) upload_zip disk (nested 1)
      deep_unpacked
   \<and> execute_linguist (deep_scenario classifier_garbled (JObject decoded_report)) local_wrapper
        [''--breakdown'', ''--json'', ''.''] (nested 1) deep_unpacked
       = (Inr ''<html>'', deep_unpacked)
   \<and> json_loads (deep_scenario classifier_garbled (JObject decoded_report)) ''<html>''
        = Inl JSONDecodeError
   \<and> fst (analyze_zip (deep_scenario classifier_garbled (JObject decoded_report)) local_wrapper
            upload_zip disk) = Inl RecursionError"
proof (intro conjI)
  show "execute_linguist (deep_scenario classifier_garbled (JObject decoded_report)) local_wrapper
        [''--breakdown'', ''--json'', ''.''] (nested 1) deep_unpacked
       = (Inr ''<html>'', deep_unpacked)"
    by (simp add: execute_linguist_def linguist_command_def local_wrapper_def deep_sel)
       (simp add: scenario_def classifier_garbled_def)
  show "json_loads (deep_scenario classifier_garbled (JObject decoded_report)) ''<html>''
        = Inl JSONDecodeError"
    by (simp add: deep_sel) (simp add: scenario_def report_text_def)
qed (simp_all only: prepared_deep deep_result fst_conv)

text \<open>
  Claim C9, as amended. Once the temporary directory has been created, \<open>analyze_zip\<close>
  removes it when the steps in it have ended, with a mapping or with an error. When the
  removal succeeds, \<open>analyze_zip\<close> ends as those steps did, and no path at or under the
  temporary directory exists any more; when the removal fails, \<open>analyze_zip\<close> fails with
  the error of the removal.
\<close>

theorem analyze_zip_cleanup:
  assumes "is_file w zip_path = Inr True"
      and "analyze_in E self zip_path (mkdtemp E w) (create_dir (mkdtemp E w) w) = (result, w1)"
      and "rmtree (recursion_budget E) (mkdtemp E w) w1 = (cleanup, w2)"
  shows "analyze_zip E self zip_path w = (case cleanup of None \<Rightarrow> result | Some e \<Rightarrow> Inl e, w2)
       \<and> (cleanup = None \<longrightarrow> (\<forall>p. under (mkdtemp E w) p \<longrightarrow> \<not> path_exists w2 p))"
  using analyze_zip_result [OF assms] assms(3) rmtree_clean by blast

theorem analyze_zip_cleanup_witness:
  "is_file disk upload_zip = Inr True
   \<and> fst (analyze_in (scenario classifier_ok (JObject decoded_report)) local_wrapper upload_zip
        tmp_dir (create_dir tmp_dir disk)) = Inr expected_stats
   \<and> fst (rmtree 1000 tmp_dir unpacked) = None
   \<and> under tmp_dir (child project_dir ''main.py'')
   \<and> fst (analyze_zip (scenario classifier_ok (JObject decoded_report)) local_wrapper
            upload_zip disk) = Inr expected_stats
   \<and> \<not> path_exists (snd (analyze_zip (scenario classifier_ok (JObject decoded_report))
                           local_wrapper upload_zip disk)) (child project_dir ''main.py'')
   \<and> \<not> path_exists (snd (analyze_zip (scenario classifier_ok (JObject decoded_report))
                           local_wrapper upload_zip disk)) tmp_dir"
proof -
  let ?E = "scenario classifier_ok (JObject decoded_report)"
  have a: "analyze_in ?E local_wrapper upload_zip (mkdtemp ?E disk)
      (create_dir (mkdtemp ?E disk) disk) = (Inr expected_stats, unpacked)"
    using analyze_in_prepared [OF prepared_scenario, of classifier_ok "JObject decoded_report"
        local_wrapper] collect_scenario by simp
  have r: "rmtree (recursion_budget ?E) (mkdtemp ?E disk) unpacked
      = (None, snd (rmtree 1000 tmp_dir unpacked))"
    using cleanup_scenario by (simp add: scenario_sel) (metis prod.collapse)
  have u: "under tmp_dir (child project_dir ''main.py'')" "under tmp_dir tmp_dir"
    by (simp_all add: under_def tmp_dir_def project_dir_def child_def)
  from analyze_zip_cleanup [OF is_file_upload a r] a u is_file_upload cleanup_scenario
  show ?thesis by (simp add: scenario_sel)
qed

text \<open>
  Claim C9 as it is stated fails for an archive of 1200 directories nested in one
  another: the removal of the temporary directory gives up (\<open>RecursionError\<close>), that error
  is what \<open>analyze_zip\<close> raises, and the temporary directory is still there.
\<close>

theorem analyze_zip_cleanup_counterexample:
  "is_file disk upload_zip = Inr True
   \<and> mkdtemp (deep_scenario classifier_ok (JObject decoded_report)) disk = tmp_dir
   \<and> fst (analyze_zip (deep_scenario classifier_ok (JObject decoded_report)) local_wrapper
            upload_zip disk) = Inl RecursionError
   \<and> path_exists (snd (analyze_zip (deep_scenario classifier_ok (JObject decoded_report))
                         local_wrapper upload_zip disk)) tmp_dir"
  by (simp add: is_file_upload deep_sel deep_result deep_remains)




end
